theory Spec2Isabelle
  imports Complex_Main "HOL-Library.Sublist" "HOL-Library.AList"
begin

section \<open>Python values and string primitives\<close>

text \<open>
  The functions of \<^verbatim>\<open>app.py\<close> receive values decoded from JSON bodies, from the
  configuration file and from multipart form fields, and they test
  \<^verbatim>\<open>isinstance(x, str)\<close> before anything else. Such a value is a \<open>pyval\<close>.
  A Python \<^verbatim>\<open>str\<close> is modelled as a \<open>string\<close> whose characters are read as the code
  points U+0000 to U+00FF; \<open>length\<close> counts code points, as Python's \<^verbatim>\<open>len\<close> does.
  The payload of a number plays no role in any function below.
\<close>

datatype pyval =
    PNone
  | PBool bool
  | PNum int
  | PStr string
  | PList "pyval list"
  | PDict "(string \<times> pyval) list"

text \<open>\<^verbatim>\<open>str.isspace\<close> on one code point below 256.\<close>

definition py_isspace :: "char \<Rightarrow> bool" where
  "py_isspace c = (let n = (of_char c :: nat) in
     (9 \<le> n \<and> n \<le> 13) \<or> (28 \<le> n \<and> n \<le> 32) \<or> n = 133 \<or> n = 160)"

text \<open>\<^verbatim>\<open>str.lower\<close> on one code point below 256: the ASCII capitals and the Latin-1
  capitals U+00C0 to U+00DE (without the multiplication sign U+00D7) move up by 32.\<close>

definition lower_char :: "char \<Rightarrow> char" where
  "lower_char c = (let n = (of_char c :: nat) in
     if (65 \<le> n \<and> n \<le> 90) \<or> (192 \<le> n \<and> n \<le> 222 \<and> n \<noteq> 215)
     then char_of (n + 32) else c)"

definition lower :: "string \<Rightarrow> string" where
  "lower s = map lower_char s"

text \<open>\<^verbatim>\<open>s.strip()\<close>: white space is dropped at both ends.\<close>

definition strip :: "string \<Rightarrow> string" where
  "strip s = rev (dropWhile py_isspace (rev (dropWhile py_isspace s)))"

text \<open>\<^verbatim>\<open>sub in s\<close> on strings: \<open>sub\<close> occurs as a contiguous block of \<open>s\<close>.\<close>

fun py_in :: "string \<Rightarrow> string \<Rightarrow> bool" where
  "py_in sub [] = (sub = [])"
| "py_in sub (c # cs) = (prefix sub (c # cs) \<or> py_in sub cs)"

text \<open>\<^verbatim>\<open>s.startswith(p)\<close> and \<^verbatim>\<open>s.endswith(p)\<close>.\<close>

definition startswith :: "string \<Rightarrow> string \<Rightarrow> bool" where
  "startswith s p = prefix p s"

definition endswith :: "string \<Rightarrow> string \<Rightarrow> bool" where
  "endswith s p = suffix p s"

text \<open>The text after the last occurrence of \<open>sep\<close>, the whole string when \<open>sep\<close> does not
  occur. This is \<^verbatim>\<open>s.rsplit(sep, 1)[1]\<close> when \<open>sep\<close> occurs in \<open>s\<close>, and it is
  \<^verbatim>\<open>s[s.rfind(sep) + 1:]\<close> always.\<close>

definition after_last :: "char \<Rightarrow> string \<Rightarrow> string" where
  "after_last sep s = rev (takeWhile (\<lambda>c. c \<noteq> sep) (rev s))"

text \<open>\<^verbatim>\<open>os.path.basename\<close> of \<^verbatim>\<open>posixpath\<close>: \<^verbatim>\<open>p[p.rfind('/') + 1:]\<close>.\<close>

definition basename :: "string \<Rightarrow> string" where
  "basename p = after_last (CHR ''/'') p"

text \<open>Python's integers are unbounded, so lengths, sizes and bounds are integers here;
  \<open>take_int n\<close> is the first \<open>n\<close> elements, nothing for \<open>n \<le> 0\<close>.\<close>

fun take_int :: "int \<Rightarrow> 'a list \<Rightarrow> 'a list" where
  "take_int n [] = []"
| "take_int n (x # xs) = (if n \<le> 0 then [] else x # take_int (n - 1) xs)"

text \<open>\<^verbatim>\<open>s[:n]\<close> for an integer \<open>n\<close>: a negative bound counts from the end.\<close>

definition slice_to :: "int \<Rightarrow> string \<Rightarrow> string" where
  "slice_to n s = (if 0 \<le> n then take_int n s else take_int (int (length s) + n) s)"

text \<open>\<^verbatim>\<open>s.replace(c, r)\<close> for a one-character pattern \<open>c\<close>.\<close>

definition replace_char :: "char \<Rightarrow> string \<Rightarrow> string \<Rightarrow> string" where
  "replace_char c r s = concat (map (\<lambda>x. if x = c then r else [x]) s)"

section \<open>Sanitizer and validators\<close>

definition ALLOWED_EXTENSIONS :: "string list" where
  "ALLOWED_EXTENSIONS = [''pdf'']"

definition ALLOWED_MODELS :: "string list" where
  "ALLOWED_MODELS =
    [''llama2'', ''llama2:7b'', ''llama2:13b'', ''llama2:70b'',
     ''llama3'', ''llama3:8b'', ''llama3.2'', ''llama3.2:1b'', ''llama3.2:3b'',
     ''mistral'', ''mistral:7b'',
     ''phi'', ''phi:2.7b'', ''phi3'',
     ''codellama'', ''codellama:7b'',
     ''gemma'', ''gemma:2b'', ''gemma:7b'']"

text \<open>\<^verbatim>\<open>validate_filename\<close>. The base name is taken first; the three substring tests
  and the length test then look at the base name only.\<close>

fun validate_filename :: "pyval \<Rightarrow> bool" where
  "validate_filename (PStr filename) =
     (if filename = [] then False
      else let filename = basename filename in
        if py_in ''..'' filename \<or> py_in ''/'' filename \<or> py_in [CHR 0x5C] filename then False
        else if length filename > 255 then False
        else py_in ''.'' filename
             \<and> lower (after_last (CHR ''.'') filename) \<in> set ALLOWED_EXTENSIONS)"
| "validate_filename _ = False"

text \<open>The loop of \<^verbatim>\<open>validate_model_name\<close> over the allow-list: it returns at the first
  entry that equals the name or that, followed by a colon, starts it.\<close>

fun matches_allowed :: "string \<Rightarrow> string list \<Rightarrow> bool" where
  "matches_allowed model_name [] = False"
| "matches_allowed model_name (allowed # rest) =
     (if model_name = allowed \<or> startswith model_name (allowed @ '':'') then True
      else matches_allowed model_name rest)"

text \<open>\<^verbatim>\<open>validate_model_name\<close>. The length test comes after \<^verbatim>\<open>lower().strip()\<close>.\<close>

fun validate_model_name :: "pyval \<Rightarrow> bool" where
  "validate_model_name (PStr model_name) =
     (if model_name = [] then False
      else let model_name = strip (lower model_name) in
        if length model_name > 50 then False
        else matches_allowed model_name ALLOWED_MODELS)"
| "validate_model_name _ = False"

text \<open>\<^verbatim>\<open>sanitize_input\<close>: truncate, drop NUL, then escape the angle brackets.\<close>

fun sanitize_input :: "pyval \<Rightarrow> int \<Rightarrow> string" where
  "sanitize_input (PStr text) max_length =
     (let text = slice_to max_length text;
          text = replace_char (CHR 0x00) [] text;
          text = replace_char (CHR ''>'') ''&gt;'' (replace_char (CHR ''<'') ''&lt;'' text)
      in text)"
| "sanitize_input _ max_length = []"

text \<open>What the two replacements of \<open>sanitize_input\<close> together make of one character.\<close>

definition escape_char :: "char \<Rightarrow> string" where
  "escape_char x = (if x = CHR ''<'' then ''&lt;'' else if x = CHR ''>'' then ''&gt;'' else [x])"

text \<open>The property the specification asks of a model name, word for word: the name is an
  entry of the allow-list, or an entry followed by a colon and any suffix.\<close>

definition allow_listed :: "string \<Rightarrow> bool" where
  "allow_listed s = (\<exists>a \<in> set ALLOWED_MODELS. s = a \<or> prefix (a @ '':'') s)"

section \<open>Rate limiter\<close>

text \<open>
  The decorator \<^verbatim>\<open>rate_limit\<close> keeps, per client address, the list of the times of the
  requests it let through (the global \<^verbatim>\<open>request_times\<close>). Time is \<^verbatim>\<open>time.time()\<close>, a number
  of seconds, modelled as a real. One call is modelled by \<open>rate_limit\<close>: it returns
  whether the wrapped handler runs (\<open>False\<close> is the answer 429) and the store afterwards.
  The store is pruned also when the call is refused.
\<close>

definition RATE_LIMIT :: nat where
  "RATE_LIMIT = 10"

definition RATE_WINDOW :: real where
  "RATE_WINDOW = 60"

type_synonym rate_store = "string \<rightharpoonup> real list"

definition rate_limit :: "string \<Rightarrow> real \<Rightarrow> rate_store \<Rightarrow> bool \<times> rate_store" where
  "rate_limit client_ip current_time request_times =
     (let request_times =
            (case request_times client_ip of
               None \<Rightarrow> request_times
             | Some ts \<Rightarrow>
                 request_times(client_ip \<mapsto> filter (\<lambda>t. current_time - t < RATE_WINDOW) ts))
      in case request_times client_ip of
           Some ts \<Rightarrow>
             if length ts \<ge> RATE_LIMIT then (False, request_times)
             else (True, request_times(client_ip \<mapsto> ts @ [current_time]))
         | None \<Rightarrow> (True, request_times(client_ip \<mapsto> [] @ [current_time])))"

text \<open>Successive calls from one client at the given times, oldest first.\<close>

fun rate_limit_calls :: "string \<Rightarrow> real list \<Rightarrow> rate_store \<Rightarrow> bool list \<times> rate_store" where
  "rate_limit_calls client_ip [] request_times = ([], request_times)"
| "rate_limit_calls client_ip (t # ts) request_times =
     (let (r, request_times) = rate_limit client_ip t request_times;
          (rs, request_times) = rate_limit_calls client_ip ts request_times
      in (r # rs, request_times))"

text \<open>The times stored for a client, and those of them that a call at \<open>now\<close> keeps.\<close>

definition window :: "rate_store \<Rightarrow> string \<Rightarrow> real list" where
  "window request_times client_ip = (case request_times client_ip of None \<Rightarrow> [] | Some ts \<Rightarrow> ts)"

definition live :: "real \<Rightarrow> real list \<Rightarrow> real list" where
  "live now ts = filter (\<lambda>t. now - t < RATE_WINDOW) ts"

section \<open>Configuration and setup progress\<close>

text \<open>
  A Python dict is an association list in insertion order with distinct keys:
  \<open>map_of d k\<close> is \<^verbatim>\<open>d.get(k)\<close>, \<open>AList.update k v d\<close> is \<^verbatim>\<open>d[k] = v\<close>.
  Truthiness is as Python defines it for the values JSON can give.
\<close>

type_synonym dict = "(string \<times> pyval) list"

fun truthy :: "pyval \<Rightarrow> bool" where
  "truthy PNone = False"
| "truthy (PBool b) = b"
| "truthy (PNum n) = (n \<noteq> 0)"
| "truthy (PStr s) = (s \<noteq> [])"
| "truthy (PList xs) = (xs \<noteq> [])"
| "truthy (PDict d) = (d \<noteq> [])"

text \<open>\<^verbatim>\<open>str(n)\<close> for an integer.\<close>

fun str_nat :: "nat \<Rightarrow> string" where
  "str_nat n = (if n < 10 then [char_of (48 + n)]
                else str_nat (n div 10) @ [char_of (48 + n mod 10)])"

definition str_int :: "int \<Rightarrow> string" where
  "str_int i = (if i < 0 then CHR ''-'' # str_nat (nat (- i)) else str_nat (nat i))"

text \<open>The outcome of a call: it returns a value or lets an exception escape, of which
  the text is kept.\<close>

datatype 'a outcome = Returns 'a | Raises string

text \<open>
  What \<^verbatim>\<open>load_config\<close> finds at \<^verbatim>\<open>CONFIG_FILE\<close>: no file; a file that cannot be opened
  or read (\<^verbatim>\<open>IOError\<close>); a file that \<^verbatim>\<open>json.load\<close> refuses (\<^verbatim>\<open>JSONDecodeError\<close>, or
  \<^verbatim>\<open>UnicodeDecodeError\<close>, both are \<^verbatim>\<open>ValueError\<close>); a file on which \<^verbatim>\<open>json.load\<close> raises
  an exception of another kind, with its text (a \<^verbatim>\<open>RecursionError\<close> for brackets nested about
  a thousand deep, which is a \<^verbatim>\<open>RuntimeError\<close>); or a file that decodes to a value.
\<close>

datatype config_file = NoFile | Unreadable | Undecodable | DecodeRaises string | Decoded pyval

definition default_config :: dict where
  "default_config =
     [(''ollama_installed'', PBool False),
      (''ollama_path'', PNone),
      (''model_name'', PStr ''llama2''),
      (''model_downloaded'', PBool False),
      (''setup_complete'', PBool False)]"

text \<open>\<^verbatim>\<open>load_config\<close>. A decoded dict is returned as it is, only a \<open>model_name\<close> that
  fails validation is replaced. The \<^verbatim>\<open>except\<close> clause catches \<^verbatim>\<open>JSONDecodeError\<close>,
  \<^verbatim>\<open>ValueError\<close> (raised by the code itself for a value that is no dict) and \<^verbatim>\<open>IOError\<close>,
  after which the defaults are returned, as they are when there is no file; any other
  exception of \<^verbatim>\<open>json.load\<close> leaves the method.\<close>

fun load_config :: "config_file \<Rightarrow> dict outcome" where
  "load_config (Decoded (PDict config)) =
     (case map_of config ''model_name'' of
        Some v \<Rightarrow>
          if \<not> validate_model_name v
          then Returns (AList.update ''model_name'' (PStr ''llama2'') config)
          else Returns config
      | None \<Rightarrow> Returns config)"
| "load_config (Decoded v) = Returns default_config"
| "load_config (DecodeRaises msg) = Raises msg"
| "load_config NoFile = Returns default_config"
| "load_config Unreadable = Returns default_config"
| "load_config Undecodable = Returns default_config"

record setup_progress =
  stage :: string
  message :: string
  progress :: int
  error :: "string option"

text \<open>
  The manager object and the file it persists to: \<open>config\<close> is \<^verbatim>\<open>self.config\<close>,
  \<open>ollama_process\<close> says whether a process handle is stored, \<open>config_disk\<close> is the content
  of \<^verbatim>\<open>CONFIG_FILE\<close>.
\<close>

record llm_manager =
  config :: dict
  setup_progress :: setup_progress
  ollama_process :: bool
  config_disk :: config_file

text \<open>The result of a \<^verbatim>\<open>subprocess.run\<close>: the process ended with a return code, standard
  output and standard error; or the call raised \<^verbatim>\<open>TimeoutExpired\<close>; or it raised an
  \<^verbatim>\<open>OSError\<close> (the program is missing), with the text of the exception.\<close>

datatype proc_result = Exited int string string | TimeoutExpired | OSError string

text \<open>One health poll, \<^verbatim>\<open>GET /api/tags\<close>: an answer with a status code, or a
  \<^verbatim>\<open>RequestException\<close>.\<close>

datatype health = Status nat | Refused

text \<open>The catalog answer read by \<^verbatim>\<open>check_model_downloaded\<close>: no answer
  (\<^verbatim>\<open>RequestException\<close>), an answer whose body is not JSON, an answer with a status code
  and the names of its \<open>models\<close> entries, or an answer of another shape, on which the code
  raises an exception it does not catch itself (with the text of that exception).\<close>

datatype tags_response =
    TagsUnreachable
  | TagsNotJson
  | TagsNames nat "string list"
  | TagsMalformed string

text \<open>A run of \<^verbatim>\<open>ollama pull\<close>: \<^verbatim>\<open>Popen\<close> raises, or the process starts, the two
  readings of the clock before the loop give \<open>start_time\<close> and \<open>last_update\<close>, the process
  prints lines (each with the time at which the loop reads it) and then
  \<^verbatim>\<open>wait(timeout=60)\<close> gives the return code or raises \<^verbatim>\<open>TimeoutExpired\<close> (\<open>None\<close>).\<close>

datatype pull_run =
    PullNotStarted string
  | PullRun real real "(real \<times> string) list" "int option"

text \<open>Everything outside the program that one operation of the manager consults.\<close>

record env =
  config_writable :: bool
  version_probe :: proc_result
  which_probe :: proc_result
  path_isfile :: "string \<Rightarrow> bool"
  process_alive :: bool
  serve_popen_error :: "string option"
  health_poll :: "nat \<Rightarrow> health"
  serve_exit_stderr :: "string option"
  tags :: tags_response
  pull :: pull_run

definition save_config :: "env \<Rightarrow> llm_manager \<Rightarrow> llm_manager" where
  "save_config e m =
     (if config_writable e then m\<lparr>config_disk := Decoded (PDict (config m))\<rparr> else m)"

definition update_progress :: "string \<Rightarrow> string \<Rightarrow> int \<Rightarrow> llm_manager \<Rightarrow> llm_manager" where
  "update_progress stg msg prog m =
     m\<lparr>setup_progress :=
          \<lparr>stage = sanitize_input (PStr stg) 50,
           message = sanitize_input (PStr msg) 200,
           progress = max 0 (min 100 prog),
           error = None\<rparr>\<rparr>"

definition set_error :: "string \<Rightarrow> llm_manager \<Rightarrow> llm_manager" where
  "set_error msg m = m\<lparr>setup_progress := (setup_progress m)\<lparr>error := Some msg\<rparr>\<rparr>"

definition get_ollama_path :: "env \<Rightarrow> pyval" where
  "get_ollama_path e =
     (case which_probe e of
        Exited rc out err \<Rightarrow>
          if rc = 0 then
            (let path = takeWhile (\<lambda>c. c \<noteq> CHR 0x0A) (strip out)
             in if path_isfile e path then PStr path else PNone)
          else PNone
      | _ \<Rightarrow> PNone)"

definition check_ollama_installed :: "env \<Rightarrow> llm_manager \<Rightarrow> bool \<times> llm_manager" where
  "check_ollama_installed e m =
     (case version_probe e of
        Exited rc out err \<Rightarrow>
          if rc = 0 then
            (True,
             save_config e
               (m\<lparr>config :=
                    AList.update ''ollama_path'' (get_ollama_path e)
                      (AList.update ''ollama_installed'' (PBool True) (config m))\<rparr>))
          else (False, m)
      | _ \<Rightarrow> (False, m))"

definition start_ollama_service :: "env \<Rightarrow> llm_manager \<Rightarrow> bool \<times> llm_manager" where
  "start_ollama_service e m =
     (if ollama_process m \<and> process_alive e then (True, m)
      else let m = update_progress ''starting'' ''Starting Ollama service...'' 60 m in
        case serve_popen_error e of
          Some msg \<Rightarrow> (False, set_error (take 200 msg) m)
        | None \<Rightarrow>
            (let m = m\<lparr>ollama_process := True\<rparr> in
             if list_ex (\<lambda>i. health_poll e i = Status 200) [0..<30]
             then (True, update_progress ''started'' ''Ollama service running'' 70 m)
             else case serve_exit_stderr e of
                    Some err \<Rightarrow>
                      (False,
                       set_error
                         (take 200 (''Ollama service failed to start: '' @ take 200 (take 500 err)))
                         m)
                  | None \<Rightarrow> (False, m)))"

definition check_model_downloaded ::
    "env \<Rightarrow> pyval \<Rightarrow> llm_manager \<Rightarrow> (bool \<times> llm_manager) outcome" where
  "check_model_downloaded e model_name m =
     (case model_name of
        PStr name \<Rightarrow>
          if \<not> validate_model_name model_name then Returns (False, m)
          else
            (case tags e of
               TagsUnreachable \<Rightarrow> Returns (False, m)
             | TagsNotJson \<Rightarrow> Returns (False, m)
             | TagsMalformed msg \<Rightarrow> Raises msg
             | TagsNames code names \<Rightarrow>
                 if code = 200 \<and> list_ex (\<lambda>n. py_in name n) names
                 then Returns
                        (True,
                         save_config e
                           (m\<lparr>config := AList.update ''model_downloaded'' (PBool True) (config m)\<rparr>))
                 else Returns (False, m))
      | _ \<Rightarrow> Returns (False, m))"

text \<open>The loop of \<^verbatim>\<open>download_model\<close> over the lines of the pull: \<open>Inl\<close> when the 1800
  seconds are exceeded (the exception of the loop), \<open>Inr\<close> when the output ends; either way
  with the manager as the iterations left it.\<close>

fun pull_lines ::
    "real \<Rightarrow> real \<Rightarrow> (real \<times> string) list \<Rightarrow> llm_manager \<Rightarrow> llm_manager + llm_manager" where
  "pull_lines start_time last_update [] m = Inr m"
| "pull_lines start_time last_update ((current_time, line) # rest) m =
     (if current_time - start_time > 1800 then Inl m
      else if current_time - last_update > 2
              \<and> (py_in ''pulling'' (lower line) \<or> py_in ''downloading'' (lower line))
      then pull_lines start_time current_time rest
             (m\<lparr>setup_progress := (setup_progress m)
                  \<lparr>message := sanitize_input (PStr (take 200 (strip line))) 200\<rparr>\<rparr>)
      else pull_lines start_time last_update rest m)"

text \<open>\<^verbatim>\<open>download_model(model_name)\<close>. Like \<^verbatim>\<open>check_model_downloaded\<close> it is only ever
  called with the name that \<^verbatim>\<open>auto_setup\<close> has validated; the default argument \<open>None\<close>,
  which would read the name from the configuration, is used by no caller and is not
  modelled.\<close>

definition download_model :: "env \<Rightarrow> pyval \<Rightarrow> llm_manager \<Rightarrow> bool \<times> llm_manager" where
  "download_model e model_name m =
     (case model_name of
        PStr name \<Rightarrow>
          if \<not> validate_model_name model_name then (False, set_error ''Invalid model name'' m)
          else
            (let m = update_progress ''downloading'' (''Downloading model '' @ name @ ''...'') 80 m in
             case pull e of
               PullNotStarted msg \<Rightarrow> (False, set_error (take 200 msg) m)
             | PullRun start_time last_update lines wait \<Rightarrow>
                 (case pull_lines start_time last_update lines m of
                    Inl m \<Rightarrow>
                      (False, set_error (take 200 ''Download timeout (30 minutes exceeded)'') m)
                  | Inr m \<Rightarrow>
                      (case wait of
                         None \<Rightarrow> (False, set_error ''Download timeout'' m)
                       | Some returncode \<Rightarrow>
                           if returncode = 0 then
                             (True,
                              update_progress ''complete'' (''Model '' @ name @ '' ready'') 95
                                (save_config e
                                   (m\<lparr>config :=
                                        AList.update ''model_downloaded'' (PBool True)
                                          (AList.update ''model_name'' model_name (config m))\<rparr>)))
                           else
                             (False,
                              set_error
                                (take 200 (''Download failed with exit code '' @ str_int returncode))
                                m))))
      | _ \<Rightarrow> (False, set_error ''Invalid model name'' m))"

text \<open>\<^verbatim>\<open>auto_setup(model_name)\<close>, one run of it on its own.\<close>

definition auto_setup :: "env \<Rightarrow> pyval \<Rightarrow> llm_manager \<Rightarrow> bool \<times> llm_manager" where
  "auto_setup e model_name m =
     (if \<not> validate_model_name model_name then (False, set_error ''Invalid model name'' m)
      else
        (let (installed, m) = check_ollama_installed e m in
         if \<not> installed
         then (False,
               update_progress ''error'' ''Ollama not installed. Please run ./setup.sh first'' 0 m)
         else
           (let m = update_progress ''checking'' ''Ollama detected'' 20 m;
                (started, m) = start_ollama_service e m
            in if \<not> started then (False, m)
               else
                 (case check_model_downloaded e model_name m of
                    Raises msg \<Rightarrow> (False, set_error (take 200 msg) m)
                  | Returns (present, m) \<Rightarrow>
                      (let (ok, m) =
                             (if \<not> present then download_model e model_name m
                              else (True,
                                    update_progress ''checking''
                                      (''Model '' @ (case model_name of PStr n \<Rightarrow> n | _ \<Rightarrow> [])
                                         @ '' already downloaded'') 90 m))
                       in if \<not> ok then (False, m)
                          else
                            (True,
                             update_progress ''complete'' ''Setup complete - System ready'' 100
                               (save_config e
                                  (m\<lparr>config :=
                                       AList.update ''setup_complete'' (PBool True) (config m)\<rparr>))))))))"

text \<open>An HTTP answer of a route: the status code and the JSON body.\<close>

datatype response = Response nat dict

text \<open>The body of the route \<^verbatim>\<open>/set_model\<close>; \<open>request_json\<close> is what
  \<^verbatim>\<open>request.get_json()\<close> does: it returns a value or raises.\<close>

definition set_model ::
    "env \<Rightarrow> pyval outcome \<Rightarrow> llm_manager \<Rightarrow> response \<times> llm_manager" where
  "set_model e request_json m =
     (case request_json of
        Raises msg \<Rightarrow> (Response 500 [(''error'', PStr (take 200 msg))], m)
      | Returns data \<Rightarrow>
     (case data of
        PDict d \<Rightarrow>
          if \<not> truthy data then (Response 400 [(''error'', PStr ''Invalid request'')], m)
          else
            (case map_of d ''model_name'' of
               Some (PStr name) \<Rightarrow>
                 if \<not> validate_model_name (PStr name)
                 then (Response 400 [(''error'', PStr ''Invalid model name'')], m)
                 else (Response 200 [(''success'', PBool True)],
                       save_config e
                         (m\<lparr>config := AList.update ''model_name'' (PStr name) (config m)\<rparr>))
             | _ \<Rightarrow> (Response 400 [(''error'', PStr ''Invalid model name type'')], m))
      | _ \<Rightarrow> (Response 400 [(''error'', PStr ''Invalid request'')], m)))"

text \<open>\<^verbatim>\<open>LLMManager.__init__\<close>: an exception that leaves \<^verbatim>\<open>load_config\<close> leaves the
  constructor too.\<close>

definition init_manager :: "config_file \<Rightarrow> llm_manager outcome" where
  "init_manager f =
     (case load_config f of
        Raises msg \<Rightarrow> Raises msg
      | Returns c \<Rightarrow>
          Returns
            \<lparr>config = c,
             setup_progress = \<lparr>stage = ''idle'', message = [], progress = 0, error = None\<rparr>,
             ollama_process = False,
             config_disk = f\<rparr>)"

text \<open>The manager that the constructor builds when there is no configuration file.\<close>

definition default_manager :: llm_manager where
  "default_manager =
     \<lparr>config = default_config,
      setup_progress = \<lparr>stage = ''idle'', message = [], progress = 0, error = None\<rparr>,
      ollama_process = False,
      config_disk = NoFile\<rparr>"

text \<open>An environment in which nothing is installed and nothing answers, and one in which
  the engine is installed, answers at the third poll and pulls a model without error.\<close>

definition bare_env :: env where
  "bare_env =
     \<lparr>config_writable = True,
      version_probe = OSError ''No such file or directory: ollama'',
      which_probe = Exited 1 [] [],
      path_isfile = (\<lambda>p. False),
      process_alive = False,
      serve_popen_error = Some ''No such file or directory: ollama'',
      health_poll = (\<lambda>i. Refused),
      serve_exit_stderr = None,
      tags = TagsUnreachable,
      pull = PullNotStarted ''No such file or directory: ollama''\<rparr>"

definition ready_env :: env where
  "ready_env =
     \<lparr>config_writable = True,
      version_probe = Exited 0 ''ollama version is 0.5.7'' [],
      which_probe = Exited 0 ''/usr/local/bin/ollama'' [],
      path_isfile = (\<lambda>p. p = ''/usr/local/bin/ollama''),
      process_alive = False,
      serve_popen_error = None,
      health_poll = (\<lambda>i. if i < 2 then Refused else Status 200),
      serve_exit_stderr = None,
      tags = TagsNames 200 [],
      pull = PullRun 0 0 [(1, ''pulling manifest''), (4, ''pulling 8934d96d3f08'')] (Some 0)\<rparr>"

text \<open>The invariant as the specification words it: the configuration has a
  \<open>model_name\<close>, and it is an allow-list entry or a colon-suffixed variant of one.\<close>

definition model_name_allow_listed :: "dict \<Rightarrow> bool" where
  "model_name_allow_listed c =
     (case map_of c ''model_name'' of Some (PStr s) \<Rightarrow> allow_listed s | _ \<Rightarrow> False)"

text \<open>The invariant the code keeps: a \<open>model_name\<close> that is present passes
  \<open>validate_model_name\<close>.\<close>

definition model_name_valid :: "dict \<Rightarrow> bool" where
  "model_name_valid c =
     (case map_of c ''model_name'' of Some v \<Rightarrow> validate_model_name v | None \<Rightarrow> True)"

section \<open>Files and the installer\<close>

text \<open>
  The file system as the program sees it: the regular files by path, each with its
  content (a text file is identified with its text), and the paths on which
  \<^verbatim>\<open>os.remove\<close> raises \<^verbatim>\<open>OSError\<close>. Directories are not modelled, so \<^verbatim>\<open>os.path.exists\<close> and
  \<^verbatim>\<open>os.path.isfile\<close> coincide.
\<close>

record filesystem =
  files :: "string \<rightharpoonup> string"
  undeletable :: "string list"

definition write_file :: "string \<Rightarrow> string \<Rightarrow> filesystem \<Rightarrow> filesystem" where
  "write_file path content fs = fs\<lparr>files := (files fs)(path \<mapsto> content)\<rparr>"

text \<open>\<^verbatim>\<open>safe_remove_file\<close>: the file is removed when it exists and \<^verbatim>\<open>os.remove\<close> does not
  raise; an \<^verbatim>\<open>OSError\<close> is logged and swallowed, and the file stays.\<close>

definition safe_remove_file :: "string \<Rightarrow> filesystem \<Rightarrow> bool \<times> filesystem" where
  "safe_remove_file filepath fs =
     (if files fs filepath \<noteq> None then
        (if filepath \<in> set (undeletable fs) then (False, fs)
         else (True, fs\<lparr>files := (files fs)(filepath := None)\<rparr>))
      else (False, fs))"

text \<open>
  What the two subprocesses of \<^verbatim>\<open>install_ollama\<close> do. \<open>curl_leaves\<close> is the content that
  \<^verbatim>\<open>curl\<close> leaves at the script's path (\<open>None\<close>: it writes nothing). The two texts are
  what the handler of \<^verbatim>\<open>CalledProcessError\<close> puts after \<open>Installation failed:\<close>,
  that is \<^verbatim>\<open>error_msg[:100]\<close> as the f-string prints it, for \<^verbatim>\<open>curl\<close> and for \<^verbatim>\<open>sh\<close>.
\<close>

record install_env =
  curl_result :: proc_result
  curl_leaves :: "string option"
  curl_failure_text :: string
  sh_result :: proc_result
  sh_failure_text :: string

definition install_script :: string where
  "install_script = ''/tmp/ollama_install.sh''"

definition install_ollama ::
    "env \<Rightarrow> install_env \<Rightarrow> filesystem \<Rightarrow> llm_manager \<Rightarrow> bool \<times> filesystem \<times> llm_manager" where
  "install_ollama e ie fs m =
     (let m = update_progress ''installing'' ''Installing Ollama...'' 20 m;
          m = update_progress ''installing'' ''Downloading Ollama installer...'' 25 m;
          fs = (case curl_leaves ie of
                  None \<Rightarrow> fs
                | Some content \<Rightarrow> write_file install_script content fs)
      in case curl_result ie of
           TimeoutExpired \<Rightarrow>
             (False, fs, set_error ''Installation timeout - check network connection'' m)
         | OSError msg \<Rightarrow> (False, fs, set_error (take 200 msg) m)
         | Exited rc out err \<Rightarrow>
             if rc \<noteq> 0
             then (False, fs, set_error (''Installation failed: '' @ curl_failure_text ie) m)
             else
               (case files fs install_script of
                  None \<Rightarrow> (False, fs, set_error (take 200 ''Install script download failed'') m)
                | Some content \<Rightarrow>
                    (let file_size = int (length content) in
                     if file_size > 1000000 \<or> file_size < 100
                     then (False, snd (safe_remove_file install_script fs),
                           set_error
                             (take 200 (''Install script size suspicious: '' @ str_int file_size
                                        @ '' bytes''))
                             m)
                     else
                       (let m = update_progress ''installing'' ''Running Ollama installer...'' 40 m in
                        case sh_result ie of
                          TimeoutExpired \<Rightarrow>
                            (False, fs,
                             set_error ''Installation timeout - check network connection'' m)
                        | OSError msg \<Rightarrow> (False, fs, set_error (take 200 msg) m)
                        | Exited rc out err \<Rightarrow>
                            if rc \<noteq> 0
                            then (False, fs,
                                  set_error (''Installation failed: '' @ sh_failure_text ie) m)
                            else
                              (let fs = snd (safe_remove_file install_script fs);
                                   (installed, m) = check_ollama_installed e m
                               in if installed
                                  then (True, fs,
                                        update_progress ''installed''
                                          ''Ollama installed successfully'' 50 m)
                                  else (False, fs,
                                        set_error
                                          (take 200
                                             ''Installation completed but ollama command not found in PATH'')
                                          m))))))"

text \<open>A file system that holds nothing, and a run in which the script is fetched (120
  bytes) and the installer then ends with return code 1, or runs into the timeout.\<close>

definition empty_fs :: filesystem where
  "empty_fs = \<lparr>files = Map.empty, undeletable = []\<rparr>"

definition failing_install :: install_env where
  "failing_install =
     \<lparr>curl_result = Exited 0 [] [],
      curl_leaves = Some (replicate 120 (CHR ''#'')),
      curl_failure_text = [],
      sh_result = Exited 1 [] ''install failed'',
      sh_failure_text = ''install failed''\<rparr>"

definition hanging_install :: install_env where
  "hanging_install = failing_install\<lparr>sh_result := TimeoutExpired\<rparr>"

section \<open>Paths\<close>

text \<open>\<^verbatim>\<open>os.path.join(a, b)\<close> of \<^verbatim>\<open>posixpath\<close> for two parts.\<close>

definition path_join :: "string \<Rightarrow> string \<Rightarrow> string" where
  "path_join a b =
     (if startswith b ''/'' then b
      else if a = [] \<or> endswith a ''/'' then a @ b
      else a @ ''/'' @ b)"

text \<open>\<^verbatim>\<open>s.split(c)\<close> and \<^verbatim>\<open>c.join(parts)\<close>.\<close>

fun split_on :: "char \<Rightarrow> string \<Rightarrow> string list" where
  "split_on c [] = [[]]"
| "split_on c (x # xs) =
     (if x = c then [] # split_on c xs
      else (case split_on c xs of
              w # ws \<Rightarrow> (x # w) # ws
            | [] \<Rightarrow> [[x]]))"

fun join_with :: "char \<Rightarrow> string list \<Rightarrow> string" where
  "join_with c [] = []"
| "join_with c [w] = w"
| "join_with c (w # v # ws) = w @ c # join_with c (v # ws)"

text \<open>The loop of \<^verbatim>\<open>posixpath.normpath\<close> over the components; \<open>new_comps\<close> is its
  stack, the top at the end.\<close>

fun norm_comps :: "bool \<Rightarrow> string list \<Rightarrow> string list \<Rightarrow> string list" where
  "norm_comps initial_slashes [] new_comps = new_comps"
| "norm_comps initial_slashes (component # comps) new_comps =
     (if component = [] \<or> component = ''.'' then norm_comps initial_slashes comps new_comps
      else if component \<noteq> ''..'' \<or> (\<not> initial_slashes \<and> new_comps = [])
              \<or> (new_comps \<noteq> [] \<and> last new_comps = ''..'')
      then norm_comps initial_slashes comps (new_comps @ [component])
      else if new_comps \<noteq> [] then norm_comps initial_slashes comps (butlast new_comps)
      else norm_comps initial_slashes comps new_comps)"

definition normpath :: "string \<Rightarrow> string" where
  "normpath path =
     (if path = [] then ''.''
      else
        (let initial_slashes =
               (if startswith path ''/''
                then (if startswith path ''//'' \<and> \<not> startswith path ''///'' then 2 else 1)
                else (0::nat));
             comps = norm_comps (initial_slashes \<noteq> 0) (split_on (CHR ''/'') path) [];
             path = replicate initial_slashes (CHR ''/'') @ join_with (CHR ''/'') comps
         in if path = [] then ''.'' else path))"

text \<open>\<^verbatim>\<open>os.path.abspath\<close>, given the working directory.\<close>

definition abspath :: "string \<Rightarrow> string \<Rightarrow> string" where
  "abspath cwd path = normpath (path_join cwd path)"

text \<open>\<^verbatim>\<open>Path(filename).stem\<close> for a path whose last component is neither empty nor a
  single dot (the route calls it on a name that ends in \<open>.pdf\<close>): the last component
  without its suffix, a suffix being what starts at the last dot when that dot is neither
  the first nor the last character.\<close>

definition path_stem :: "string \<Rightarrow> string" where
  "path_stem p =
     (let name = basename p;
          suffix = after_last (CHR ''.'') name
      in if CHR ''.'' \<in> set name \<and> suffix \<noteq> [] \<and> length suffix + 1 < length name
         then take (length name - length suffix - 1) name
         else name)"

section \<open>Request pipeline\<close>

text \<open>The file part of the multipart request: its name as the client sent it and its
  bytes.\<close>

record upload =
  upload_name :: string
  upload_body :: string

text \<open>What \<^verbatim>\<open>file.save\<close> and the writing of the output file do: they succeed, or they
  raise with some text, leaving nothing new (\<open>None\<close>) or part of the content at the
  path.\<close>

datatype write_result = Written | WriteFailed "string option" string

text \<open>What \<^verbatim>\<open>PyPDF2\<close> makes of the bytes of a file: opening or reading raises, or
  there are pages, each giving its text (possibly empty) or raising.\<close>

datatype page = PageText string | PageError

datatype reader = ReaderError string | Pages "page list"

text \<open>The prompt file: absent, unreadable (\<^verbatim>\<open>IOError\<close>), not decodable (an exception
  that \<^verbatim>\<open>read_prompt\<close> does not catch), or holding a text.\<close>

datatype prompt_source = NoPrompt | PromptUnreadable | PromptUndecodable string | PromptText string

text \<open>The answer to \<^verbatim>\<open>POST /api/generate\<close>: a timeout, another \<^verbatim>\<open>RequestException\<close>
  (among them an error status), a body that is not JSON, or a JSON body.\<close>

datatype generate_result = GenTimeout | GenRequestError string | GenNotJson | GenBody pyval

text \<open>
  Everything outside the program that one request consults. \<open>secure_filename\<close> is the
  function of that name of the \<^verbatim>\<open>werkzeug\<close> library; \<open>app_dir\<close> is the directory of
  \<^verbatim>\<open>app.py\<close> as \<^verbatim>\<open>os.path.abspath\<close> gives it and \<open>cwd\<close> the working directory; the two tokens
  are the values of \<^verbatim>\<open>secrets.token_hex(8)\<close>; \<open>pypdf2_installed\<close> says whether the import
  of \<^verbatim>\<open>PyPDF2\<close> succeeds; \<open>generate\<close> takes the model and the prompt of the payload.
\<close>

record pipeline_env =
  secure_filename :: "string \<Rightarrow> string"
  app_dir :: string
  cwd :: string
  upload_token :: string
  output_token :: string
  save_result :: write_result
  pypdf2_installed :: bool
  pdf_reader :: "string \<Rightarrow> reader"
  prompt_file :: prompt_source
  generate :: "pyval \<Rightarrow> string \<Rightarrow> generate_result"
  output_write :: write_result

definition UPLOAD_FOLDER :: "pipeline_env \<Rightarrow> string" where
  "UPLOAD_FOLDER pe = path_join (app_dir pe) ''uploads''"

definition OUTPUT_FOLDER :: "pipeline_env \<Rightarrow> string" where
  "OUTPUT_FOLDER pe = path_join (app_dir pe) ''outputs''"

definition MAX_CONTENT_LENGTH :: int where
  "MAX_CONTENT_LENGTH = 50 * 1024 * 1024"

text \<open>The page loop of \<^verbatim>\<open>extract_pdf_text\<close>: a page that raises is skipped, and the
  loop stops as soon as more than 500000 characters are collected.\<close>

fun extract_pages :: "page list \<Rightarrow> string \<Rightarrow> string" where
  "extract_pages [] text = text"
| "extract_pages (PageError # rest) text = extract_pages rest text"
| "extract_pages (PageText page_text # rest) text =
     (let text = (if page_text \<noteq> [] then text @ page_text @ [CHR 0x0A] else text)
      in if int (length text) > 500000 then slice_to 500000 text
         else extract_pages rest text)"

definition extract_pdf_text :: "pipeline_env \<Rightarrow> filesystem \<Rightarrow> string \<Rightarrow> string outcome" where
  "extract_pdf_text pe fs pdf_path =
     (if \<not> pypdf2_installed pe then Raises ''PyPDF2 not installed''
      else
        (case files fs pdf_path of
           None \<Rightarrow> Raises ''PDF file not found''
         | Some content \<Rightarrow>
             (let file_size = int (length content) in
              if file_size > 50 * 1024 * 1024 then Raises ''PDF file too large (max 50MB)''
              else
                (case pdf_reader pe content of
                   ReaderError msg \<Rightarrow> Raises (''PDF extraction failed: '' @ take 100 msg)
                 | Pages ps \<Rightarrow>
                     (let text = extract_pages (take 100 ps) [] in
                      if strip text = [] then Raises ''No text could be extracted from PDF''
                      else Returns (sanitize_input (PStr text) 500000))))))"

definition read_prompt :: "pipeline_env \<Rightarrow> string outcome" where
  "read_prompt pe =
     (case prompt_file pe of
        PromptText content \<Rightarrow> Returns (sanitize_input (PStr (slice_to 50000 content)) 10000)
      | PromptUndecodable msg \<Rightarrow> Raises msg
      | _ \<Rightarrow> Returns ''Analyze this PDF document and provide a summary.'')"

text \<open>The name of the type of a value, as the texts of Python's exceptions print it (a
  number is taken to be an \<^verbatim>\<open>int\<close>).\<close>

fun type_name :: "pyval \<Rightarrow> string" where
  "type_name PNone = ''NoneType''"
| "type_name (PBool b) = ''bool''"
| "type_name (PNum n) = ''int''"
| "type_name (PStr s) = ''str''"
| "type_name (PList xs) = ''list''"
| "type_name (PDict d) = ''dict''"

text \<open>Whether \<^verbatim>\<open>len\<close> is defined for a value.\<close>

fun has_len :: "pyval \<Rightarrow> bool" where
  "has_len (PStr s) = True"
| "has_len (PList xs) = True"
| "has_len (PDict d) = True"
| "has_len _ = False"

definition quoted :: "string \<Rightarrow> string" where
  "quoted s = [CHR 0x27] @ s @ [CHR 0x27]"

text \<open>\<^verbatim>\<open>query_ollama\<close>. Reading \<open>model_name\<close> from the configuration raises \<^verbatim>\<open>KeyError\<close>
  when it is missing; a body that is no dict has no \<^verbatim>\<open>get\<close>; and the log line takes
  \<^verbatim>\<open>len\<close> of the response, which raises for \<open>None\<close>, a truth value and a number. None
  of the three is caught inside \<^verbatim>\<open>query_ollama\<close>.\<close>

definition query_ollama ::
    "pipeline_env \<Rightarrow> llm_manager \<Rightarrow> string \<Rightarrow> string \<Rightarrow> string outcome" where
  "query_ollama pe m prompt context =
     (let prompt = sanitize_input (PStr prompt) 10000;
          context = sanitize_input (PStr context) 100000
      in case map_of (config m) ''model_name'' of
           None \<Rightarrow> Raises (quoted ''model_name'')
         | Some model \<Rightarrow>
             (case generate pe model
                     (prompt @ [CHR 0x0A, CHR 0x0A] @ ''Document content:'' @ [CHR 0x0A] @ context) of
                GenTimeout \<Rightarrow> Raises ''LLM request timeout (5 minutes)''
              | GenRequestError msg \<Rightarrow> Raises (''LLM request failed: '' @ take 100 msg)
              | GenNotJson \<Rightarrow> Raises ''Invalid LLM response format''
              | GenBody result \<Rightarrow>
                  (case result of
                     PDict d \<Rightarrow>
                       (let llm_response =
                              (case map_of d ''response'' of None \<Rightarrow> PStr [] | Some v \<Rightarrow> v)
                        in if \<not> has_len llm_response
                           then Raises (''object of type '' @ quoted (type_name llm_response)
                                        @ '' has no len()'')
                           else Returns (sanitize_input llm_response 1000000))
                   | _ \<Rightarrow>
                       Raises (quoted (type_name result) @ '' object has no attribute ''
                               @ quoted ''get''))))"

text \<open>The block of \<^verbatim>\<open>process_pdf\<close> inside the inner \<^verbatim>\<open>try\<close>: extraction, prompt, query
  and the writing of the output file.\<close>

definition process_saved ::
    "pipeline_env \<Rightarrow> llm_manager \<Rightarrow> string \<Rightarrow> string \<Rightarrow> filesystem
       \<Rightarrow> response outcome \<times> filesystem" where
  "process_saved pe m filename filepath fs =
     (case extract_pdf_text pe fs filepath of
        Raises msg \<Rightarrow> (Raises msg, fs)
      | Returns pdf_text \<Rightarrow>
          (case read_prompt pe of
             Raises msg \<Rightarrow> (Raises msg, fs)
           | Returns prompt \<Rightarrow>
               (case query_ollama pe m prompt pdf_text of
                  Raises msg \<Rightarrow> (Raises msg, fs)
                | Returns llm_response \<Rightarrow>
                    (let output_filename = path_stem filename @ ''_output.txt'';
                         output_path =
                           path_join (OUTPUT_FOLDER pe)
                             (output_token pe @ ''_'' @ output_filename)
                     in case output_write pe of
                          WriteFailed left msg \<Rightarrow>
                            (Raises msg,
                             (case left of
                                None \<Rightarrow> fs
                              | Some part \<Rightarrow> write_file output_path part fs))
                        | Written \<Rightarrow>
                            (Returns
                               (Response 200
                                  [(''status'', PStr ''success''),
                                   (''output_file'', PStr (basename output_path)),
                                   (''original_name'', PStr output_filename)]),
                             write_file output_path llm_response fs)))))"

text \<open>The body of the route \<^verbatim>\<open>/process_pdf\<close>, which runs when the rate limiter admits
  the request; \<open>file\<close> is \<^verbatim>\<open>request.files.get('file')\<close>. The \<^verbatim>\<open>finally\<close> clause removes the upload after the
  inner block, and the outer handler removes it once more when an exception escaped.\<close>

definition process_pdf ::
    "pipeline_env \<Rightarrow> llm_manager \<Rightarrow> upload option \<Rightarrow> filesystem \<Rightarrow> response \<times> filesystem" where
  "process_pdf pe m file fs =
     (case file of
        None \<Rightarrow> (Response 400 [(''error'', PStr ''No file provided'')], fs)
      | Some f \<Rightarrow>
          if upload_name f = [] then (Response 400 [(''error'', PStr ''No file selected'')], fs)
          else if \<not> validate_filename (PStr (upload_name f))
          then (Response 400 [(''error'', PStr ''Invalid filename'')], fs)
          else
            (let filename = secure_filename pe (upload_name f) in
             if \<not> endswith (lower filename) ''.pdf''
             then (Response 400 [(''error'', PStr ''Only PDF files allowed'')], fs)
             else
               (let unique_filename = upload_token pe @ ''_'' @ filename;
                    filepath = path_join (UPLOAD_FOLDER pe) unique_filename
                in case save_result pe of
                     WriteFailed left msg \<Rightarrow>
                       (let fs = (case left of
                                    None \<Rightarrow> fs
                                  | Some part \<Rightarrow> write_file filepath part fs)
                        in (Response 500 [(''error'', PStr (take 200 msg))],
                            snd (safe_remove_file filepath fs)))
                   | Written \<Rightarrow>
                       (let fs = write_file filepath (upload_body f) fs in
                        if int (length (upload_body f)) > MAX_CONTENT_LENGTH
                        then (Response 400 [(''error'', PStr ''File too large (max 50MB)'')],
                              snd (safe_remove_file filepath fs))
                        else
                          (let (result, fs) = process_saved pe m filename filepath fs;
                               fs = snd (safe_remove_file filepath fs)
                           in case result of
                                Returns r \<Rightarrow> (r, fs)
                              | Raises msg \<Rightarrow>
                                  (Response 500 [(''error'', PStr (take 200 msg))],
                                   snd (safe_remove_file filepath fs)))))))"

text \<open>The path under which \<open>process_pdf\<close> stores the upload \<open>f\<close>, and the identifier and
  path of the output file it writes for it.\<close>

definition upload_path :: "pipeline_env \<Rightarrow> upload \<Rightarrow> string" where
  "upload_path pe f =
     path_join (UPLOAD_FOLDER pe)
       (upload_token pe @ ''_'' @ secure_filename pe (upload_name f))"

definition artifact_id :: "pipeline_env \<Rightarrow> upload \<Rightarrow> string" where
  "artifact_id pe f =
     output_token pe @ ''_'' @ path_stem (secure_filename pe (upload_name f)) @ ''_output.txt''"

text \<open>The route \<^verbatim>\<open>/download/<filename>\<close>. It answers with a JSON error or with the
  response of \<^verbatim>\<open>send_file\<close>, on which it registers, with \<^verbatim>\<open>call_on_close\<close>, the removal of
  the file; \<open>SendFile\<close> holds the bytes sent and the path of that removal.\<close>

datatype download_response = Json response | SendFile string string

definition download :: "pipeline_env \<Rightarrow> string \<Rightarrow> filesystem \<Rightarrow> download_response" where
  "download pe filename fs =
     (let safe_filename = secure_filename pe filename in
      if safe_filename = [] \<or> safe_filename \<noteq> filename
      then Json (Response 400 [(''error'', PStr ''Invalid filename'')])
      else
        (let filepath = path_join (OUTPUT_FOLDER pe) safe_filename in
         case files fs filepath of
           None \<Rightarrow> Json (Response 404 [(''error'', PStr ''File not found'')])
         | Some content \<Rightarrow>
             (let real_path = abspath (cwd pe) filepath;
                  output_dir = abspath (cwd pe) (OUTPUT_FOLDER pe)
              in if \<not> startswith real_path output_dir
                 then Json (Response 403 [(''error'', PStr ''Access denied'')])
                 else SendFile content filepath)))"

text \<open>
  What becomes of a response once the route has returned it for a \<^verbatim>\<open>GET\<close> request. The
  functions registered with \<^verbatim>\<open>call_on_close\<close> run when \<^verbatim>\<open>Response.close\<close> is called,
  and the library calls it at the end of the body it iterates over. The response of
  \<^verbatim>\<open>send_file\<close> is built with \<^verbatim>\<open>direct_passthrough\<close> set, and the body of such a response,
  the wrapper of the open file, is handed to the server as it is: the server closes the
  file, \<^verbatim>\<open>Response.close\<close> is not called, and what was registered does not run.
\<close>

definition direct_passthrough :: "download_response \<Rightarrow> bool" where
  "direct_passthrough r = (case r of SendFile content filepath \<Rightarrow> True | Json j \<Rightarrow> False)"

definition on_close :: "download_response \<Rightarrow> string list" where
  "on_close r = (case r of SendFile content filepath \<Rightarrow> [filepath] | Json j \<Rightarrow> [])"

definition serve_response :: "download_response \<Rightarrow> filesystem \<Rightarrow> filesystem" where
  "serve_response r fs =
     (if direct_passthrough r then fs
      else fold (\<lambda>filepath fs. snd (safe_remove_file filepath fs)) (on_close r) fs)"

section \<open>What the pipeline relies on from outside\<close>

text \<open>
  \<open>secure_filename\<close> belongs to a library. Of it the proofs use only this: its result
  is empty or a clean name, that is a non-empty string of ASCII letters, digits,
  underscores, dots and hyphens that neither starts nor ends with a dot or an
  underscore; and it returns a clean name unchanged.
\<close>

definition safe_chars :: string where
  "safe_chars = ''ABCDEFGHIJKLMNOPQRSTUVWXYZabcdefghijklmnopqrstuvwxyz0123456789_.-''"

definition clean_name :: "string \<Rightarrow> bool" where
  "clean_name s =
     (s \<noteq> [] \<and> set s \<subseteq> set safe_chars
      \<and> hd s \<notin> set ''._'' \<and> last s \<notin> set ''._'')"

definition secure_filename_contract :: "(string \<Rightarrow> string) \<Rightarrow> bool" where
  "secure_filename_contract sec =
     ((\<forall>s. sec s = [] \<or> clean_name (sec s)) \<and> (\<forall>s. clean_name s \<longrightarrow> sec s = s))"

text \<open>A value of \<^verbatim>\<open>secrets.token_hex(8)\<close>: sixteen hexadecimal digits.\<close>

definition hex_token :: "string \<Rightarrow> bool" where
  "hex_token t = (length t = 16 \<and> set t \<subseteq> set ''0123456789abcdef'')"

text \<open>What the library function does to a name without white space, path separators and
  letters outside ASCII: it drops the other characters and then drops dots and
  underscores from both ends.\<close>

definition plain_secure_filename :: "string \<Rightarrow> string" where
  "plain_secure_filename s =
     rev (dropWhile (\<lambda>c. c \<in> set ''._'')
            (rev (dropWhile (\<lambda>c. c \<in> set ''._'') (filter (\<lambda>c. c \<in> set safe_chars) s))))"

text \<open>A request that goes through: a two-page document, an engine that answers, and a
  manager whose configuration is the default one.\<close>

definition report_upload :: upload where
  "report_upload = \<lparr>upload_name = ''Q3-report.PDF'', upload_body = ''%PDF-1.7 ...''\<rparr>"

definition answering_pipeline :: pipeline_env where
  "answering_pipeline =
     \<lparr>secure_filename = plain_secure_filename,
      app_dir = ''/srv/app'',
      cwd = ''/srv'',
      upload_token = ''00112233aabbccdd'',
      output_token = ''0123456789abcdef'',
      save_result = Written,
      pypdf2_installed = True,
      pdf_reader = (\<lambda>content. Pages [PageText ''Revenue grew.'', PageError, PageText ''Costs fell.'']),
      prompt_file = NoPrompt,
      generate = (\<lambda>model prompt. GenBody (PDict [(''response'', PStr ''Revenue up, costs <down>.'')])),
      output_write = Written\<rparr>"

section \<open>Properties of the validators\<close>

lemma matches_allowed_iff:
  "matches_allowed s as = (\<exists>a \<in> set as. s = a \<or> prefix (a @ '':'') s)"
  by (induction as) (auto simp: startswith_def)

lemma lower_char_idem: "lower_char (lower_char c) = lower_char c"
  by (auto simp: lower_char_def Let_def)

lemma lower_idem: "lower (lower s) = lower s"
  by (simp add: lower_def lower_char_idem)

lemma lower_Nil_iff: "lower s = [] \<longleftrightarrow> s = []"
  by (simp add: lower_def)

text \<open>
  C1. The claim: every string that contains a path separator or the sequence \<open>..\<close>, or
  that does not end in an allowed extension, is rejected by \<open>validate_filename\<close>.
  The code takes \<^verbatim>\<open>os.path.basename\<close> before it looks for \<open>..\<close>, \<open>/\<close> and the backslash,
  so a slash and every \<open>..\<close> in front of the last slash are cut away before the tests
  run: the name \<open>../a.pdf\<close> contains both and is accepted.
\<close>

theorem validate_filename_accepts_parent_path:
  "py_in ''/'' ''../a.pdf'' \<and> py_in ''..'' ''../a.pdf'' \<and> validate_filename (PStr ''../a.pdf'')"
  by code_simp

text \<open>
  C5, as the claim states it, fails: the length test of \<open>validate_model_name\<close> runs on
  the lower-cased and trimmed name, so an input of 56 characters, \<open>llama2\<close> followed by
  fifty blanks, is accepted.
\<close>

theorem validate_model_name_long_input_accepted:
  "length (''llama2'' @ replicate 50 (CHR '' '')) > 50
   \<and> validate_model_name (PStr (''llama2'' @ replicate 50 (CHR '' '')))"
  by code_simp

text \<open>
  C5, amended. \<open>validate_model_name\<close> accepts exactly the non-empty strings whose
  lower-cased, trimmed form has at most 50 characters and is an allow-list entry or an
  entry followed by a colon and a suffix; in particular every non-string, every empty
  string and every input whose normalised form is longer than 50 characters is rejected.
  It is insensitive to case: two strings with the same lower-case form get the same
  verdict.
\<close>

theorem validate_model_name_characterisation:
  "(validate_model_name v \<longleftrightarrow>
      (\<exists>s. v = PStr s \<and> s \<noteq> [] \<and> length (strip (lower s)) \<le> 50
           \<and> allow_listed (strip (lower s))))
   \<and> (\<forall>s t. lower s = lower t \<longrightarrow>
          validate_model_name (PStr s) = validate_model_name (PStr t))"
proof
  show "validate_model_name v \<longleftrightarrow>
      (\<exists>s. v = PStr s \<and> s \<noteq> [] \<and> length (strip (lower s)) \<le> 50
           \<and> allow_listed (strip (lower s)))"
    by (cases v) (auto simp: Let_def matches_allowed_iff allow_listed_def)
next
  show "\<forall>s t. lower s = lower t \<longrightarrow>
          validate_model_name (PStr s) = validate_model_name (PStr t)"
  proof (intro allI impI)
    fix s t :: string
    assume eq: "lower s = lower t"
    then have "s = [] \<longleftrightarrow> t = []"
      using lower_Nil_iff by metis
    with eq show "validate_model_name (PStr s) = validate_model_name (PStr t)"
      by simp
  qed
qed

theorem validate_model_name_characterisation_witness:
  "lower ''LLAMA2'' = lower ''llama2''
   \<and> validate_model_name (PStr ''LLAMA2'') = validate_model_name (PStr ''llama2'')
   \<and> validate_model_name (PStr '' Llama3.2:3B '')
   \<and> allow_listed (strip (lower '' Llama3.2:3B ''))"
proof -
  have e: "lower ''LLAMA2'' = lower ''llama2''"
    by code_simp
  have c: "validate_model_name (PStr ''LLAMA2'') = validate_model_name (PStr ''llama2'')"
    using validate_model_name_characterisation e by blast
  have v: "validate_model_name (PStr '' Llama3.2:3B '')"
    by code_simp
  have a: "allow_listed (strip (lower '' Llama3.2:3B ''))"
    using validate_model_name_characterisation [of "PStr '' Llama3.2:3B ''"] v by blast
  show ?thesis
    using e c v a by simp
qed

text \<open>
  C10. The result of \<open>sanitize_input\<close> is not bounded by \<open>max_length\<close>: the text is cut
  to \<open>max_length\<close> characters first and the angle brackets are escaped afterwards, each
  becoming four characters. The three characters \<open><b>\<close> with \<open>max_length = 3\<close> give a
  result of nine characters.
\<close>

theorem sanitize_input_exceeds_max_length:
  "\<exists>text max_length.
     (CHR ''<'' \<in> set text \<or> CHR ''>'' \<in> set text) \<and> 0 \<le> max_length
     \<and> int (length (sanitize_input (PStr text) max_length)) > max_length"
proof (intro exI conjI)
  show "CHR ''<'' \<in> set ''<b>'' \<or> CHR ''>'' \<in> set ''<b>''"
    by simp
  show "(0::int) \<le> 3"
    by simp
  show "int (length (sanitize_input (PStr ''<b>'') 3)) > 3"
    by code_simp
qed

lemma py_in_single: "py_in [c] s \<longleftrightarrow> c \<in> set s"
  by (induction s) auto

lemma after_last_split:
  "c \<in> set s \<Longrightarrow> \<exists>pre. s = pre @ c # after_last c s"
proof -
  assume "c \<in> set s"
  then have mem: "c \<in> set (rev s)" by simp
  define P where "P = (\<lambda>d. d \<noteq> c)"
  have "rev s = takeWhile P (rev s) @ dropWhile P (rev s)" by simp
  moreover have "dropWhile P (rev s) \<noteq> []"
    using mem by (auto simp: dropWhile_eq_Nil_conv P_def)
  moreover have "hd (dropWhile P (rev s)) = c"
    using hd_dropWhile [of P "rev s"] mem by (auto simp: dropWhile_eq_Nil_conv P_def)
  ultimately obtain rest where "rev s = takeWhile P (rev s) @ c # rest"
    by (metis list.collapse)
  then have "s = rev rest @ c # rev (takeWhile P (rev s))"
    by (metis rev_append rev.simps(2) rev_rev_ident append.assoc append_Cons append_Nil)
  then show ?thesis
    by (auto simp: after_last_def P_def)
qed

lemma after_last_free: "c \<notin> set (after_last c s)"
  by (auto simp: after_last_def dest: set_takeWhileD)

lemma after_last_suffix: "suffix (after_last c s) s"
proof -
  have "prefix (takeWhile (\<lambda>d. d \<noteq> c) (rev s)) (rev s)"
    by (metis prefixI takeWhile_dropWhile_id)
  then show ?thesis
    by (simp add: after_last_def suffix_to_prefix)
qed

text \<open>
  What \<open>validate_filename\<close> does guarantee. An accepted value is a string whose base
  name (the part after the last slash) ends in a dot followed by an allowed extension, in
  any case, contains neither \<open>..\<close> nor a backslash, and has at most 255 characters.
\<close>

theorem validate_filename_accepts_only:
  "validate_filename v \<longrightarrow>
     (\<exists>s stem ext. v = PStr s \<and> suffix (basename s) s
        \<and> basename s = stem @ ''.'' @ ext \<and> CHR ''.'' \<notin> set ext
        \<and> lower ext \<in> set ALLOWED_EXTENSIONS
        \<and> \<not> py_in ''..'' (basename s) \<and> CHR 0x5C \<notin> set (basename s)
        \<and> CHR ''/'' \<notin> set (basename s) \<and> length (basename s) \<le> 255)"
proof
  assume ok: "validate_filename v"
  then obtain s where v: "v = PStr s" by (cases v) auto
  define b where "b = basename s"
  have facts: "\<not> py_in ''..'' b" "CHR 0x5C \<notin> set b" "length b \<le> 255" "CHR ''.'' \<in> set b"
      "lower (after_last (CHR ''.'') b) \<in> set ALLOWED_EXTENSIONS"
    using ok py_in_single [of "CHR 0x5C" b] py_in_single [of "CHR ''.''" b]
    by (auto simp: v Let_def b_def split: if_splits)
  obtain stem where "b = stem @ CHR ''.'' # after_last (CHR ''.'') b"
    using after_last_split [OF facts(4)] by blast
  then have split: "b = stem @ ''.'' @ after_last (CHR ''.'') b" by simp
  have "suffix b s" "CHR ''/'' \<notin> set b"
    using after_last_suffix [of "CHR ''/''" s] after_last_free [of "CHR ''/''" s]
    by (simp_all add: b_def basename_def)
  then show "\<exists>s stem ext. v = PStr s \<and> suffix (basename s) s
        \<and> basename s = stem @ ''.'' @ ext \<and> CHR ''.'' \<notin> set ext
        \<and> lower ext \<in> set ALLOWED_EXTENSIONS
        \<and> \<not> py_in ''..'' (basename s) \<and> CHR 0x5C \<notin> set (basename s)
        \<and> CHR ''/'' \<notin> set (basename s) \<and> length (basename s) \<le> 255"
    using v facts split after_last_free [of "CHR ''.''" b] unfolding b_def by blast
qed

theorem validate_filename_accepts_only_witness:
  "validate_filename (PStr ''docs/Q3-report.PDF'')
   \<and> (\<exists>stem ext. basename ''docs/Q3-report.PDF'' = stem @ ''.'' @ ext
         \<and> lower ext \<in> set ALLOWED_EXTENSIONS)"
proof -
  have v: "validate_filename (PStr ''docs/Q3-report.PDF'')"
    by code_simp
  show ?thesis
    using validate_filename_accepts_only [of "PStr ''docs/Q3-report.PDF''"] v by blast
qed

lemma escape_as_map:
  "replace_char (CHR ''>'') ''&gt;'' (replace_char (CHR ''<'') ''&lt;'' s) = concat (map escape_char s)"
  by (induction s) (auto simp: replace_char_def escape_char_def)

lemma length_escape: "length (concat (map escape_char s)) \<le> 4 * length s"
  by (induction s) (auto simp: escape_char_def)

lemma length_take_int: "int (length (take_int n s)) \<le> max 0 n"
  by (induction n s rule: take_int.induct) auto

lemma length_drop_nul: "length (replace_char c [] s) \<le> length s"
  by (induction s) (auto simp: replace_char_def)

text \<open>
  What \<open>sanitize_input\<close> does guarantee: the result holds no NUL and no angle bracket,
  and for a bound \<open>max_length \<ge> 0\<close> it has at most four times \<open>max_length\<close> characters.
\<close>

theorem sanitize_input_bounds:
  "CHR 0x00 \<notin> set (sanitize_input v n) \<and> CHR ''<'' \<notin> set (sanitize_input v n)
   \<and> CHR ''>'' \<notin> set (sanitize_input v n)
   \<and> (0 \<le> n \<longrightarrow> int (length (sanitize_input v n)) \<le> 4 * n)"
proof (cases v)
  case (PStr s)
  define t where "t = replace_char (CHR 0x00) [] (slice_to n s)"
  have r: "sanitize_input v n = concat (map escape_char t)"
    by (simp add: PStr Let_def escape_as_map t_def)
  have nul: "CHR 0x00 \<notin> set t"
    by (auto simp: t_def replace_char_def)
  have chars: "CHR 0x00 \<notin> set (concat (map escape_char t))"
      "CHR ''<'' \<notin> set (concat (map escape_char t))"
      "CHR ''>'' \<notin> set (concat (map escape_char t))"
    using nul by (auto simp: escape_char_def split: if_splits)
  have len: "int (length (concat (map escape_char t))) \<le> 4 * n" if "0 \<le> n"
  proof -
    have "int (length (slice_to n s)) \<le> n"
      using that length_take_int [of n s] by (simp add: slice_to_def)
    moreover have "length t \<le> length (slice_to n s)"
      unfolding t_def by (rule length_drop_nul)
    ultimately have "int (length t) \<le> n" by linarith
    then show ?thesis
      using length_escape [of t] by linarith
  qed
  show ?thesis
    using chars len by (simp add: r)
qed simp_all

theorem sanitize_input_bounds_witness:
  "(0::int) \<le> 3 \<and> int (length (sanitize_input (PStr ''<b>'') 3)) \<le> 4 * 3
   \<and> CHR ''<'' \<notin> set (sanitize_input (PStr ''<b>'') 3)"
  using sanitize_input_bounds [of "PStr ''<b>''" 3] by simp

section \<open>Properties of the rate limiter\<close>

lemma rate_limit_admit:
  "length (live t (window rt ip)) < RATE_LIMIT \<Longrightarrow>
   fst (rate_limit ip t rt)
   \<and> snd (rate_limit ip t rt) ip = Some (live t (window rt ip) @ [t])"
  by (auto simp: rate_limit_def window_def live_def Let_def split: option.splits)

lemma rate_limit_reject:
  "rt ip = Some es \<Longrightarrow> RATE_LIMIT \<le> length (live t es) \<Longrightarrow>
   \<not> fst (rate_limit ip t rt) \<and> snd (rate_limit ip t rt) ip = Some (live t es)"
  by (auto simp: rate_limit_def live_def Let_def split: option.splits)

lemma rate_limit_calls_Cons:
  "fst (rate_limit_calls ip (t # ts) rt) =
     fst (rate_limit ip t rt) # fst (rate_limit_calls ip ts (snd (rate_limit ip t rt)))"
  "snd (rate_limit_calls ip (t # ts) rt) =
     snd (rate_limit_calls ip ts (snd (rate_limit ip t rt)))"
  by (simp_all add: split_beta)

lemma live_all: "\<forall>e \<in> set es. t - e < RATE_WINDOW \<Longrightarrow> live t es = es"
  by (simp add: live_def)

lemma live_none: "\<forall>e \<in> set es. RATE_WINDOW \<le> t - e \<Longrightarrow> live t es = []"
  by (auto simp: live_def filter_empty_conv)

lemma sorted_le_last: "sorted xs \<Longrightarrow> x \<in> set xs \<Longrightarrow> x \<le> last (xs :: real list)"
  by (induction xs) auto

lemma calls_in_window:
  "rt ip = Some es \<Longrightarrow>
   \<forall>x \<in> set es \<union> set ts. lo \<le> x \<and> x < lo + RATE_WINDOW \<Longrightarrow>
   fst (rate_limit_calls ip ts rt) =
     replicate (min (length ts) (RATE_LIMIT - length es)) True
        @ replicate (length ts - (RATE_LIMIT - length es)) False
   \<and> snd (rate_limit_calls ip ts rt) ip = Some (es @ take (RATE_LIMIT - length es) ts)"
proof (induction ts arbitrary: rt es)
  case Nil
  then show ?case by simp
next
  case (Cons t ts)
  have all_live: "live t es = es"
  proof (rule live_all, rule ballI)
    fix e assume "e \<in> set es"
    then have "lo \<le> e" and "t < lo + RATE_WINDOW"
      using Cons.prems(2) by auto
    then show "t - e < RATE_WINDOW" by simp
  qed
  define rt' where "rt' = snd (rate_limit ip t rt)"
  show ?case
  proof (cases "length es < RATE_LIMIT")
    case True
    have step: "fst (rate_limit ip t rt)" "rt' ip = Some (es @ [t])"
      using rate_limit_admit [of t rt ip] True all_live Cons.prems(1)
      by (simp_all add: window_def rt'_def)
    have bounds: "\<forall>x \<in> set (es @ [t]) \<union> set ts. lo \<le> x \<and> x < lo + RATE_WINDOW"
      using Cons.prems(2) by auto
    note rest = Cons.IH [of rt' "es @ [t]", OF step(2) bounds]
    obtain k where k: "RATE_LIMIT - length es = Suc k"
      using True by (metis Suc_diff_Suc)
    then have k': "RATE_LIMIT - Suc (length es) = k" by simp
    show ?thesis
      using step(1) rest k k' by (simp add: split_beta rt'_def)
  next
    case False
    then have full: "RATE_LIMIT \<le> length (live t es)" using all_live by simp
    have step: "\<not> fst (rate_limit ip t rt)" "rt' ip = Some es"
      using rate_limit_reject [of rt ip es t] full all_live Cons.prems(1)
      by (simp_all add: rt'_def)
    have bounds: "\<forall>x \<in> set es \<union> set ts. lo \<le> x \<and> x < lo + RATE_WINDOW"
      using Cons.prems(2) by auto
    note rest = Cons.IH [of rt' es, OF step(2) bounds]
    have z: "RATE_LIMIT - length es = 0" using False by simp
    show ?thesis
      using step(1) rest z by (simp add: split_beta rt'_def)
  qed
qed

text \<open>
  C6, as the claim states it, fails for a client that is already at its ceiling. A
  refused call is not recorded, so the window holds only the admitted requests. With ten
  requests stored at time 0, the ten calls at 50 to 59 are refused; at 109 the stored
  requests are older than 60 seconds and are pruned, and the eleventh call of a series
  that spans 59 seconds is admitted.
\<close>

theorem rate_limit_eleventh_admitted:
  "sorted [50, 51, 52, 53, 54, 55, 56, 57, 58, 59, 109 :: real]
   \<and> (109 :: real) - 50 < RATE_WINDOW
   \<and> fst (rate_limit_calls ''10.0.0.1'' [50, 51, 52, 53, 54, 55, 56, 57, 58, 59, 109]
            [''10.0.0.1'' \<mapsto> [0, 0, 0, 0, 0, 0, 0, 0, 0, 0]])
       = [False, False, False, False, False, False, False, False, False, False, True]"
  by (simp add: rate_limit_def RATE_LIMIT_def RATE_WINDOW_def)

text \<open>
  C6, amended. With the window of 60 seconds and the ceiling of 10: let a client of which
  no stored request is younger than 60 seconds make eleven calls at non-decreasing times
  that all lie within less than 60 seconds. Then the first ten calls are admitted and the
  eleventh is rejected. Any later call made once the window has elapsed since the first
  of these calls is admitted again. The state of the other clients is arbitrary.
\<close>

theorem rate_limit_window:
  assumes len: "length ts = 11"
      and ord: "sorted ts"
      and span: "last ts - hd ts < RATE_WINDOW"
      and fresh: "\<forall>e \<in> set (window rt ip). RATE_WINDOW \<le> hd ts - e"
      and later: "RATE_WINDOW \<le> t - hd ts"
  shows "fst (rate_limit_calls ip ts rt) = replicate 10 True @ [False]
         \<and> fst (rate_limit ip t (snd (rate_limit_calls ip ts rt)))"
proof -
  obtain t1 rest where ts: "ts = t1 # rest" and lr: "length rest = 10"
    using len by (cases ts) auto
  define rt1 where "rt1 = snd (rate_limit ip t1 rt)"
  define rt2 where "rt2 = snd (rate_limit_calls ip rest rt1)"
  have first: "fst (rate_limit ip t1 rt)" "rt1 ip = Some [t1]"
    using rate_limit_admit [of t1 rt ip] live_none [of "window rt ip" t1] fresh ts
    by (simp_all add: RATE_LIMIT_def rt1_def)
  have bounds: "\<forall>x \<in> set [t1] \<union> set rest. t1 \<le> x \<and> x < t1 + RATE_WINDOW"
  proof
    fix x assume x: "x \<in> set [t1] \<union> set rest"
    then have mem: "x \<in> set ts" using ts by auto
    have "x \<le> last ts"
      using sorted_le_last [OF ord mem] .
    moreover have "t1 \<le> x" using x ord ts by auto
    ultimately show "t1 \<le> x \<and> x < t1 + RATE_WINDOW"
      using span ts by simp
  qed
  note tail = calls_in_window [of rt1 ip "[t1]" rest t1, OF first(2) bounds]
  have r10: "replicate 10 True = True # replicate 9 True"
    by (simp add: eval_nat_numeral)
  have results: "fst (rate_limit_calls ip ts rt) = replicate 10 True @ [False]"
    using first(1) tail lr ts r10 by (simp add: split_beta RATE_LIMIT_def rt1_def)
  have final: "snd (rate_limit_calls ip ts rt) ip = Some (t1 # take 9 rest)"
    using tail lr ts by (simp add: split_beta RATE_LIMIT_def rt1_def)
  have "length (live t (t1 # take 9 rest)) < RATE_LIMIT"
  proof -
    have "live t (t1 # take 9 rest) = live t (take 9 rest)"
      using later ts by (simp add: live_def)
    moreover have "length (live t (take 9 rest)) \<le> 9"
      unfolding live_def by (rule order_trans [OF length_filter_le]) simp
    ultimately show ?thesis by (simp add: RATE_LIMIT_def)
  qed
  then have "fst (rate_limit ip t (snd (rate_limit_calls ip ts rt)))"
    using rate_limit_admit [of t "snd (rate_limit_calls ip ts rt)" ip] final
    by (simp add: window_def)
  then show ?thesis
    using results by simp
qed

theorem rate_limit_window_witness:
  "fst (rate_limit_calls ''10.0.0.1'' [0, 1, 2, 3, 4, 5, 6, 7, 8, 9, 10] Map.empty)
     = replicate 10 True @ [False]
   \<and> fst (rate_limit ''10.0.0.1'' 60
        (snd (rate_limit_calls ''10.0.0.1'' [0, 1, 2, 3, 4, 5, 6, 7, 8, 9, 10] Map.empty)))"
  by (rule rate_limit_window) (simp_all add: window_def RATE_WINDOW_def)

text \<open>
  The decision of one call, in any state: the request is admitted exactly when fewer than
  ten of the times stored for the client are younger than 60 seconds.
\<close>

theorem rate_limit_decision:
  "fst (rate_limit client_ip current_time request_times)
     = (length (live current_time (window request_times client_ip)) < RATE_LIMIT)"
  by (auto simp: rate_limit_def window_def live_def RATE_LIMIT_def Let_def split: option.splits)

section \<open>Properties of the configuration\<close>

lemma valid_update_other:
  "k \<noteq> ''model_name'' \<Longrightarrow> model_name_valid (AList.update k v c) = model_name_valid c"
  by (simp add: model_name_valid_def AList.update_conv')

lemma valid_update_name:
  "model_name_valid (AList.update ''model_name'' v c) = validate_model_name v"
  by (simp add: model_name_valid_def AList.update_conv')

lemma config_save [simp]: "config (save_config e m) = config m"
  by (simp add: save_config_def)

lemma config_progress [simp]: "config (update_progress a b c m) = config m"
  by (simp add: update_progress_def)

lemma config_error [simp]: "config (set_error a m) = config m"
  by (simp add: set_error_def)

lemma llama2_valid: "validate_model_name (PStr ''llama2'')"
  by code_simp

lemma default_config_valid: "model_name_valid default_config"
  using llama2_valid
  by (simp add: default_config_def model_name_valid_def del: validate_model_name.simps)

lemma load_config_dict:
  "load_config (Decoded (PDict d)) =
     Returns (case map_of d ''model_name'' of
                Some v \<Rightarrow> if validate_model_name v then d
                          else AList.update ''model_name'' (PStr ''llama2'') d
              | None \<Rightarrow> d)"
  by (simp split: option.splits)


lemma load_config_valid: "load_config f = Returns c \<Longrightarrow> model_name_valid c"
proof (cases f)
  case (Decoded v)
  assume r: "load_config f = Returns c"
  show ?thesis
  proof (cases v)
    case (PDict d)
    show ?thesis
      using r llama2_valid unfolding Decoded PDict load_config_dict
      by (auto simp: model_name_valid_def AList.update_conv'
               simp del: validate_model_name.simps split: option.splits if_splits)
  qed (use r in \<open>auto simp: Decoded default_config_valid\<close>)
qed (auto simp: default_config_valid)

lemma pull_lines_config:
  "pull_lines s l ls m = Inl m' \<or> pull_lines s l ls m = Inr m' \<Longrightarrow> config m' = config m"
  by (induction s l ls m rule: pull_lines.induct) (auto split: if_splits)

lemma check_installed_valid:
  "model_name_valid (config (snd (check_ollama_installed e m))) = model_name_valid (config m)"
  by (auto simp: check_ollama_installed_def valid_update_other split: proc_result.splits)

lemma start_service_config:
  "config (snd (start_ollama_service e m)) = config m"
  by (auto simp: start_ollama_service_def Let_def split: option.splits)

lemma check_model_valid:
  "check_model_downloaded e n m = Returns (b, m') \<Longrightarrow>
   model_name_valid (config m') = model_name_valid (config m)"
  by (auto simp: check_model_downloaded_def valid_update_other
           simp del: validate_model_name.simps
           split: pyval.splits tags_response.splits if_splits)

lemma download_model_valid:
  "model_name_valid (config m) \<Longrightarrow> model_name_valid (config (snd (download_model e n m)))"
proof (cases n)
  case (PStr name)
  show "model_name_valid (config m) \<Longrightarrow> ?thesis"
  proof (cases "validate_model_name n")
    case False
    then show "model_name_valid (config m) \<Longrightarrow> ?thesis"
      using PStr by (simp add: download_model_def del: validate_model_name.simps)
  next
    case True
    assume v: "model_name_valid (config m)"
    define m1 where "m1 = update_progress ''downloading'' (''Downloading model '' @ name @ ''...'') 80 m"
    have c1: "config m1 = config m" by (simp add: m1_def)
    show ?thesis
    proof (cases "pull e")
      case (PullNotStarted msg)
      then show ?thesis
        using True PStr v by (simp add: download_model_def del: validate_model_name.simps)
    next
      case (PullRun st lu ls w)
      show ?thesis
      proof (cases "pull_lines st lu ls m1")
        case (Inl m2)
        then have "config m2 = config m" using pull_lines_config [of st lu ls m1 m2] c1 by simp
        then show ?thesis
          using True PStr v PullRun Inl
          by (simp add: download_model_def m1_def del: validate_model_name.simps)
      next
        case (Inr m2)
        then have "config m2 = config m" using pull_lines_config [of st lu ls m1 m2] c1 by simp
        then show ?thesis
          using True PStr v PullRun Inr
          by (auto simp: download_model_def m1_def valid_update_other valid_update_name
                   simp del: validate_model_name.simps split: option.splits)
      qed
    qed
  qed
qed (simp_all add: download_model_def)

lemma set_model_valid:
  "model_name_valid (config m) \<Longrightarrow> model_name_valid (config (snd (set_model e d m)))"
  by (auto simp: set_model_def valid_update_name
           simp del: validate_model_name.simps
           split: outcome.splits pyval.splits option.splits)

lemma auto_setup_valid:
  assumes v: "model_name_valid (config m)"
  shows "model_name_valid (config (snd (auto_setup e n m)))"
proof (cases "validate_model_name n")
  case False
  then show ?thesis using v by (simp add: auto_setup_def del: validate_model_name.simps)
next
  case True
  obtain i m1 where ci: "check_ollama_installed e m = (i, m1)" by (cases "check_ollama_installed e m")
  have v1: "model_name_valid (config m1)"
    using check_installed_valid [of e m] ci v by simp
  define m2 where "m2 = update_progress ''checking'' ''Ollama detected'' 20 m1"
  obtain s m3 where st: "start_ollama_service e m2 = (s, m3)" by (cases "start_ollama_service e m2")
  have v3: "model_name_valid (config m3)"
    using start_service_config [of e m2] st v1 by (simp add: m2_def)
  show ?thesis
  proof (cases "check_model_downloaded e n m3")
    case (Raises msg)
    then show ?thesis
      using True ci st v1 v3
      by (simp add: auto_setup_def m2_def del: validate_model_name.simps)
  next
    case (Returns r)
    obtain p m4 where r: "r = (p, m4)" by (cases r)
    have v4: "model_name_valid (config m4)"
      using check_model_valid [of e n m3 p m4] Returns r v3 by simp
    have v5: "model_name_valid (config (snd (download_model e n m4)))"
      by (rule download_model_valid [OF v4])
    show ?thesis
      using True ci st v1 v3 v4 v5 Returns r
      by (auto simp: auto_setup_def m2_def valid_update_other split_beta Let_def
               simp del: validate_model_name.simps)
  qed
qed

text \<open>
  C7, as the claim states it, fails. \<open>validate_model_name\<close> judges the lower-cased,
  trimmed name, but \<open>load_config\<close> and \<open>set_model\<close> keep the name as it was written:
  after either, \<open>model_name\<close> can be \<open>LLAMA2\<close>, which is neither an entry of the allow-list
  nor an entry followed by a colon.
\<close>

theorem model_name_not_allow_listed:
  "load_config (Decoded (PDict [(''model_name'', PStr ''LLAMA2'')]))
     = Returns [(''model_name'', PStr ''LLAMA2'')]
   \<and> \<not> model_name_allow_listed [(''model_name'', PStr ''LLAMA2'')]
   \<and> \<not> model_name_allow_listed
         (config (snd (set_model bare_env (Returns (PDict [(''model_name'', PStr ''LLAMA2'')]))
                         default_manager)))"
  by code_simp

text \<open>
  C7, amended. A configuration that \<open>load_config\<close> returns has a \<open>model_name\<close> that, when
  there is one, passes \<open>validate_model_name\<close>: its lower-cased, trimmed form is an
  allow-list entry or a colon-suffixed variant of one. \<open>set_model\<close>, \<open>download_model\<close> and
  \<open>auto_setup\<close> keep this, whatever the request, the environment and the outcome.
\<close>

theorem model_name_valid_invariant:
  "(\<forall>c. load_config f = Returns c \<longrightarrow> model_name_valid c)
   \<and> (model_name_valid (config m) \<longrightarrow>
        model_name_valid (config (snd (set_model e request_json m)))
        \<and> model_name_valid (config (snd (download_model e model_name m)))
        \<and> model_name_valid (config (snd (auto_setup e model_name m))))"
  using load_config_valid set_model_valid download_model_valid auto_setup_valid
  by blast

theorem model_name_valid_invariant_witness:
  "load_config NoFile = Returns (config default_manager)
   \<and> model_name_valid (config default_manager)
   \<and> model_name_valid
        (config (snd (set_model ready_env (Returns (PDict [(''model_name'', PStr ''Phi3'')]))
                        default_manager)))
   \<and> model_name_valid
        (config (snd (download_model ready_env (PStr ''Mistral:7B'') default_manager)))
   \<and> model_name_valid
        (config (snd (auto_setup ready_env (PStr ''Mistral:7B'') default_manager)))"
proof -
  have loaded: "load_config NoFile = Returns (config default_manager)"
    by (simp add: default_manager_def)
  show ?thesis
    using loaded
      model_name_valid_invariant [of NoFile default_manager ready_env
        "Returns (PDict [(''model_name'', PStr ''Phi3'')])" "PStr ''Mistral:7B''"]
    by blast
qed




section \<open>Removing files\<close>

lemma safe_remove_file_gone:
  "p \<notin> set (undeletable fs) \<Longrightarrow> files (snd (safe_remove_file p fs)) p = None"
  by (simp add: safe_remove_file_def)

lemma safe_remove_file_other:
  "q \<noteq> p \<Longrightarrow> files (snd (safe_remove_file p fs)) q = files fs q"
  by (simp add: safe_remove_file_def)

lemma safe_remove_file_undeletable [simp]:
  "undeletable (snd (safe_remove_file p fs)) = undeletable fs"
  by (simp add: safe_remove_file_def)

lemma write_file_undeletable [simp]: "undeletable (write_file p c fs) = undeletable fs"
  by (simp add: write_file_def)

section \<open>The installer leaves its script behind\<close>

text \<open>
  C2. The claim: whenever the installer script was downloaded to disk, it is deleted
  before \<open>install_ollama\<close> returns, on every path: success, size violation, timeout
  and non-zero exit of the installer. The code calls \<open>safe_remove_file\<close> on the size
  violation and after an installer that ended with return code 0 only. When the
  installer ends with another return code, or runs into its timeout, the exception
  leaves the \<^verbatim>\<open>try\<close> block before that call, and no handler removes the file: in both
  runs below \<open>install_ollama\<close> returns \<open>False\<close> and the 120 bytes that were fetched are
  still at \<^verbatim>\<open>/tmp/ollama_install.sh\<close>.
\<close>

theorem install_ollama_leaves_script:
  "\<not> fst (install_ollama bare_env failing_install empty_fs default_manager)
   \<and> files (fst (snd (install_ollama bare_env failing_install empty_fs default_manager)))
        install_script = Some (replicate 120 (CHR ''#''))
   \<and> \<not> fst (install_ollama bare_env hanging_install empty_fs default_manager)
   \<and> files (fst (snd (install_ollama bare_env hanging_install empty_fs default_manager)))
        install_script = Some (replicate 120 (CHR ''#''))"
  by (simp add: install_ollama_def failing_install_def hanging_install_def empty_fs_def
        write_file_def install_script_def update_progress_def set_error_def Let_def)

text \<open>
  Where \<open>install_ollama\<close> does remove its script: whenever it returns \<open>True\<close>, and
  whenever the fetched script is refused for its size, provided \<^verbatim>\<open>os.remove\<close> does not
  raise on it.
\<close>

theorem install_ollama_removes_script:
  assumes del: "install_script \<notin> set (undeletable fs)"
  shows "(fst (install_ollama e ie fs m) \<longrightarrow>
            files (fst (snd (install_ollama e ie fs m))) install_script = None)
       \<and> (\<forall>out err content.
            curl_result ie = Exited 0 out err \<and> curl_leaves ie = Some content
            \<and> (int (length content) > 1000000 \<or> int (length content) < 100) \<longrightarrow>
            \<not> fst (install_ollama e ie fs m)
            \<and> files (fst (snd (install_ollama e ie fs m))) install_script = None)"
proof -
  define fs0 where "fs0 = (case curl_leaves ie of None \<Rightarrow> fs
                           | Some content \<Rightarrow> write_file install_script content fs)"
  have u0: "install_script \<notin> set (undeletable fs0)"
    using del by (simp add: fs0_def write_file_def split: option.splits)
  have gone: "files (snd (safe_remove_file install_script fs0)) install_script = None"
    by (rule safe_remove_file_gone [OF u0])
  have success: "files (fst (snd (install_ollama e ie fs m))) install_script = None"
    if ok: "fst (install_ollama e ie fs m)"
  proof (cases "curl_result ie")
    case (Exited rc out err)
    show ?thesis
    proof (cases "files fs0 install_script")
      case None
      then show ?thesis
        using ok Exited
        by (simp add: install_ollama_def Let_def fs0_def [symmetric] split: if_splits)
    next
      case (Some content)
      show ?thesis
      proof (cases "sh_result ie")
        case (Exited rc2 out2 err2)
        then show ?thesis
          using ok \<open>curl_result ie = Exited rc out err\<close> Some gone
          by (simp add: install_ollama_def Let_def fs0_def [symmetric] split_beta split: if_splits)
      qed (use ok \<open>curl_result ie = Exited rc out err\<close> Some in
            \<open>simp_all add: install_ollama_def Let_def fs0_def [symmetric] split: if_splits\<close>)
    qed
  qed (use ok in \<open>simp_all add: install_ollama_def Let_def\<close>)
  have size: "\<not> fst (install_ollama e ie fs m)
            \<and> files (fst (snd (install_ollama e ie fs m))) install_script = None"
    if c: "curl_result ie = Exited 0 out err" "curl_leaves ie = Some content"
          "int (length content) > 1000000 \<or> int (length content) < 100"
    for out err content
  proof -
    have "files fs0 install_script = Some content"
      using c(2) by (simp add: fs0_def write_file_def)
    then show ?thesis
      using c(1) c(3) gone
      by (auto simp: install_ollama_def Let_def fs0_def [symmetric])
  qed
  show ?thesis
    using success size by blast
qed

theorem install_ollama_removes_script_witness:
  "fst (install_ollama ready_env (failing_install\<lparr>sh_result := Exited 0 [] []\<rparr>) empty_fs
          default_manager)
   \<and> files (fst (snd (install_ollama ready_env (failing_install\<lparr>sh_result := Exited 0 [] []\<rparr>)
                         empty_fs default_manager))) install_script = None"
proof -
  have d: "install_script \<notin> set (undeletable empty_fs)"
    by (simp add: empty_fs_def)
  have ok: "fst (install_ollama ready_env (failing_install\<lparr>sh_result := Exited 0 [] []\<rparr>) empty_fs
          default_manager)"
    by code_simp
  show ?thesis
    using install_ollama_removes_script [OF d] ok by blast
qed

section \<open>Properties of the request pipeline\<close>

lemma split_on_nonempty: "split_on c xs \<noteq> []"
  by (induction xs) (auto split: list.splits)

lemma split_on_no_sep: "c \<notin> set ys \<Longrightarrow> split_on c ys = [ys]"
  by (induction ys) auto

lemma split_on_append: "split_on c (xs @ c # ys) = split_on c xs @ split_on c ys"
proof (induction xs)
  case Nil
  then show ?case by simp
next
  case (Cons x xs)
  obtain w ws where "split_on c xs = w # ws"
    using split_on_nonempty [of c xs] by (cases "split_on c xs") auto
  with Cons show ?case by simp
qed

lemma norm_comps_append:
  "norm_comps i (cs @ ds) acc = norm_comps i ds (norm_comps i cs acc)"
  by (induction cs arbitrary: acc) auto

lemma norm_comps_single:
  "a \<noteq> [] \<Longrightarrow> a \<noteq> ''.'' \<Longrightarrow> a \<noteq> ''..'' \<Longrightarrow> norm_comps i [a] acc = acc @ [a]"
  by simp

lemma join_with_snoc:
  "join_with c (acc @ [w]) = (if acc = [] then w else join_with c acc @ c # w)"
  by (induction c acc rule: join_with.induct) simp_all

lemma prefix_short: "length p \<le> length out \<Longrightarrow> prefix p (out @ x) = prefix p out"
  by (auto simp: prefix_append)

lemma normpath_child:
  assumes abs: "startswith out ''/''" and len: "3 \<le> length out"
      and a: "CHR ''/'' \<notin> set a" "a \<noteq> []" "a \<noteq> ''.''" "a \<noteq> ''..''"
  shows "prefix (normpath out) (normpath (out @ ''/'' @ a))"
proof -
  define k where "k = (if startswith out ''//'' \<and> \<not> startswith out ''///'' then 2 else 1 :: nat)"
  define cs where "cs = norm_comps True (split_on (CHR ''/'') out) []"
  have ne: "out \<noteq> []" using len by auto
  have pre: "\<And>p. length p \<le> 3 \<Longrightarrow> startswith (out @ ''/'' @ a) p = startswith out p"
    unfolding startswith_def using len by (intro prefix_short) simp
  have k_pos: "k \<noteq> 0" by (simp add: k_def)
  have n1: "normpath out = replicate k (CHR ''/'') @ join_with (CHR ''/'') cs"
    using abs ne k_pos by (auto simp: normpath_def Let_def k_def cs_def)
  have comps: "norm_comps True (split_on (CHR ''/'') (out @ ''/'' @ a)) [] = cs @ [a]"
    using a by (simp add: split_on_append split_on_no_sep norm_comps_append cs_def)
  have n2: "normpath (out @ ''/'' @ a) = replicate k (CHR ''/'') @ join_with (CHR ''/'') (cs @ [a])"
    using abs ne k_pos pre comps by (auto simp: normpath_def Let_def k_def)
  show ?thesis
    unfolding n1 n2 by (simp add: join_with_snoc)
qed

lemma after_last_append:
  assumes "c \<notin> set a"
  shows "after_last c (x @ c # a) = a"
proof -
  have "takeWhile (\<lambda>d. d \<noteq> c) (rev a @ c # rev x) = rev a @ takeWhile (\<lambda>d. d \<noteq> c) (c # rev x)"
    using assms by (intro takeWhile_append2) auto
  then show ?thesis
    by (simp add: after_last_def)
qed

lemma set_after_last: "set (after_last c s) \<subseteq> set s"
  by (auto simp: after_last_def dest: set_takeWhileD)

lemma set_path_stem: "set (path_stem s) \<subseteq> set s"
  using set_after_last [of "CHR ''/''" s]
  by (auto simp: path_stem_def Let_def basename_def dest: in_set_takeD)

lemma process_saved_undeletable [simp]:
  "undeletable (snd (process_saved pe m n p fs)) = undeletable fs"
  by (simp add: process_saved_def Let_def
           split: outcome.splits write_result.splits option.splits)

lemma hex_safe: "set ''0123456789abcdef'' \<subseteq> set safe_chars"
  by (simp add: safe_chars_def)

lemma slash_unsafe: "CHR ''/'' \<notin> set safe_chars"
  by (simp add: safe_chars_def)

lemma artifact_id_clean:
  assumes tok: "hex_token (output_token pe)"
      and sec: "set (secure_filename pe (upload_name f)) \<subseteq> set safe_chars"
  shows "clean_name (artifact_id pe f)"
proof -
  define t where "t = output_token pe"
  define st where "st = path_stem (secure_filename pe (upload_name f))"
  have aid: "artifact_id pe f = t @ ''_'' @ st @ ''_output.txt''"
    by (simp add: artifact_id_def t_def st_def)
  have t_ne: "t \<noteq> []" and t_hex: "set t \<subseteq> set ''0123456789abcdef''"
    using tok by (auto simp: hex_token_def t_def)
  have t_safe: "set t \<subseteq> set safe_chars"
    using t_hex hex_safe by blast
  have st_safe: "set st \<subseteq> set safe_chars"
    using set_path_stem [of "secure_filename pe (upload_name f)"] sec by (auto simp: st_def)
  have "hd t \<in> set ''0123456789abcdef''"
    using t_ne t_hex by (meson hd_in_set subsetD)
  then have hd_ok: "hd (artifact_id pe f) \<notin> set ''._''"
    using t_ne by (auto simp: aid)
  have last_ok: "last (artifact_id pe f) \<notin> set ''._''"
    by (simp add: aid)
  have "set (artifact_id pe f) \<subseteq> set safe_chars"
    using t_safe st_safe by (auto simp: aid safe_chars_def)
  then show ?thesis
    using hd_ok last_ok by (simp add: clean_name_def aid)
qed

lemma clean_name_facts:
  assumes "clean_name a"
  shows "CHR ''/'' \<notin> set a" "a \<noteq> []" "\<not> startswith a ''/''"
  using assms slash_unsafe
  by (auto simp: clean_name_def startswith_def prefix_def)

lemma clean_name_not_dots:
  assumes "clean_name a"
  shows "a \<noteq> ''.''" "a \<noteq> ''..''"
  using assms by (auto simp: clean_name_def)

lemma OUTPUT_FOLDER_facts:
  assumes "startswith (app_dir pe) ''/''"
  shows "startswith (OUTPUT_FOLDER pe) ''/''" "3 \<le> length (OUTPUT_FOLDER pe)"
        "\<not> endswith (OUTPUT_FOLDER pe) ''/''" "OUTPUT_FOLDER pe \<noteq> []"
  using assms
  by (auto simp: OUTPUT_FOLDER_def path_join_def startswith_def endswith_def prefix_def suffix_def)

lemma artifact_path:
  assumes "startswith (app_dir pe) ''/''" "clean_name a"
  shows "path_join (OUTPUT_FOLDER pe) a = OUTPUT_FOLDER pe @ ''/'' @ a"
  using OUTPUT_FOLDER_facts [OF assms(1)] clean_name_facts [OF assms(2)]
  by (simp add: path_join_def)

lemma upload_not_artifact:
  assumes "startswith (app_dir pe) ''/''" "clean_name a" "\<not> startswith u ''/''"
  shows "path_join (UPLOAD_FOLDER pe) u \<noteq> path_join (OUTPUT_FOLDER pe) a"
  using assms clean_name_facts [OF assms(2)]
  by (auto simp: UPLOAD_FOLDER_def OUTPUT_FOLDER_def path_join_def startswith_def endswith_def
        prefix_def suffix_def)

lemma process_saved_success:
  assumes "process_saved pe m filename filepath fs = (Returns r, fs2)"
  shows "\<exists>text prompt data.
           extract_pdf_text pe fs filepath = Returns text
           \<and> read_prompt pe = Returns prompt
           \<and> query_ollama pe m prompt text = Returns data
           \<and> fs2 = write_file (path_join (OUTPUT_FOLDER pe)
                                  (output_token pe @ ''_'' @ path_stem filename @ ''_output.txt''))
                      data fs
           \<and> r = Response 200
                  [(''status'', PStr ''success''),
                   (''output_file'',
                    PStr (basename (path_join (OUTPUT_FOLDER pe)
                            (output_token pe @ ''_'' @ path_stem filename @ ''_output.txt'')))),
                   (''original_name'', PStr (path_stem filename @ ''_output.txt''))]"
  using assms
  by (auto simp: process_saved_def Let_def
           split: outcome.splits write_result.splits option.splits)

lemma process_pdf_success:
  assumes ok: "process_pdf pe m (Some f) fs = (Response 200 body, fs1)"
  shows "upload_name f \<noteq> [] \<and> validate_filename (PStr (upload_name f))
         \<and> endswith (lower (secure_filename pe (upload_name f))) ''.pdf''
         \<and> (\<exists>fs2. process_saved pe m (secure_filename pe (upload_name f)) (upload_path pe f)
                     (write_file (upload_path pe f) (upload_body f) fs)
                   = (Returns (Response 200 body), fs2)
                 \<and> fs1 = snd (safe_remove_file (upload_path pe f) fs2))"
proof -
  define p where "p = upload_path pe f"
  have p: "path_join (UPLOAD_FOLDER pe)
              (upload_token pe @ CHR ''_'' # secure_filename pe (upload_name f)) = p"
    by (simp add: p_def upload_path_def)
  have g1: "upload_name f \<noteq> []"
    using ok by (auto simp: process_pdf_def split: if_splits)
  have g2: "validate_filename (PStr (upload_name f))"
    using ok g1 by (auto simp: process_pdf_def simp del: validate_filename.simps split: if_splits)
  have g3: "endswith (lower (secure_filename pe (upload_name f))) ''.pdf''"
    using ok g1 g2
    by (auto simp: process_pdf_def Let_def simp del: validate_filename.simps split: if_splits)
  have red: "process_pdf pe m (Some f) fs =
     (case save_result pe of
        WriteFailed left msg \<Rightarrow>
          (Response 500 [(''error'', PStr (take 200 msg))],
           snd (safe_remove_file p (case left of None \<Rightarrow> fs | Some part \<Rightarrow> write_file p part fs)))
      | Written \<Rightarrow>
          if int (length (upload_body f)) > MAX_CONTENT_LENGTH
          then (Response 400 [(''error'', PStr ''File too large (max 50MB)'')],
                snd (safe_remove_file p (write_file p (upload_body f) fs)))
          else (case process_saved pe m (secure_filename pe (upload_name f)) p
                       (write_file p (upload_body f) fs) of
                  (Returns r, fs2) \<Rightarrow> (r, snd (safe_remove_file p fs2))
                | (Raises msg, fs2) \<Rightarrow>
                    (Response 500 [(''error'', PStr (take 200 msg))],
                     snd (safe_remove_file p (snd (safe_remove_file p fs2))))))"
    using g1 g2 g3
    by (simp add: process_pdf_def Let_def p split_beta del: validate_filename.simps
             split: write_result.splits outcome.splits prod.splits option.splits)
  have "\<exists>fs2. process_saved pe m (secure_filename pe (upload_name f)) p
                     (write_file p (upload_body f) fs)
                   = (Returns (Response 200 body), fs2)
                 \<and> fs1 = snd (safe_remove_file p fs2)"
    using ok unfolding red
    by (auto split: write_result.splits if_splits prod.splits outcome.splits)
  then show ?thesis
    using g1 g2 g3 by (simp add: p_def)
qed

lemma download_present:
  assumes contract: "secure_filename_contract (secure_filename pe)"
      and abs: "startswith (app_dir pe) ''/''"
      and clean: "clean_name a"
      and stored: "files fs (path_join (OUTPUT_FOLDER pe) a) = Some data"
  shows "download pe a fs = SendFile data (path_join (OUTPUT_FOLDER pe) a)"
proof -
  have same: "secure_filename pe a = a"
    using contract clean by (simp add: secure_filename_contract_def)
  note out = OUTPUT_FOLDER_facts [OF abs]
  note a = clean_name_facts [OF clean] clean_name_not_dots [OF clean]
  have fp: "path_join (OUTPUT_FOLDER pe) a = OUTPUT_FOLDER pe @ ''/'' @ a"
    by (rule artifact_path [OF abs clean])
  have abs_fp: "startswith (OUTPUT_FOLDER pe @ ''/'' @ a) ''/''"
    using out(1) by (auto simp: startswith_def prefix_def)
  have r1: "abspath (cwd pe) (OUTPUT_FOLDER pe) = normpath (OUTPUT_FOLDER pe)"
    using out(1) by (simp add: abspath_def path_join_def)
  have r2: "abspath (cwd pe) (OUTPUT_FOLDER pe @ ''/'' @ a) = normpath (OUTPUT_FOLDER pe @ ''/'' @ a)"
    using abs_fp by (simp add: abspath_def path_join_def)
  have inside: "startswith (normpath (OUTPUT_FOLDER pe @ ''/'' @ a)) (normpath (OUTPUT_FOLDER pe))"
    unfolding startswith_def
    by (rule normpath_child [OF out(1) out(2) a(1) a(2) a(4) a(5)])
  show ?thesis
    using same a(2) stored inside r1 r2
    by (simp add: download_def Let_def fp)
qed

lemma download_absent:
  assumes contract: "secure_filename_contract (secure_filename pe)"
      and clean: "clean_name a"
      and stored: "files fs (path_join (OUTPUT_FOLDER pe) a) = None"
  shows "download pe a fs = Json (Response 404 [(''error'', PStr ''File not found'')])"
proof -
  have same: "secure_filename pe a = a"
    using contract clean by (simp add: secure_filename_contract_def)
  show ?thesis
    using same clean_name_facts(2) [OF clean] stored by (simp add: download_def Let_def)
qed

lemma plain_secure_filename_contract: "secure_filename_contract plain_secure_filename"
proof -
  define P where "P = (\<lambda>c. c \<in> set ''._'')"
  have unfold: "\<And>s. plain_secure_filename s =
      rev (dropWhile P (rev (dropWhile P (filter (\<lambda>c. c \<in> set safe_chars) s))))"
    by (simp add: plain_secure_filename_def P_def)
  have clean: "plain_secure_filename s = [] \<or> clean_name (plain_secure_filename s)" for s
  proof (cases "plain_secure_filename s = []")
    case False
    define t where "t = dropWhile P (filter (\<lambda>c. c \<in> set safe_chars) s)"
    define u where "u = dropWhile P (rev t)"
    have r: "plain_secure_filename s = rev u"
      by (simp add: unfold t_def u_def)
    have u_ne: "u \<noteq> []" using False r by simp
    then have t_ne: "t \<noteq> []" by (auto simp: u_def)
    have hd_u: "\<not> P (hd u)"
      using u_ne unfolding u_def by (rule hd_dropWhile)
    have hd_t: "\<not> P (hd t)"
      using t_ne unfolding t_def by (rule hd_dropWhile)
    have "suffix u (rev t)"
      unfolding u_def by (rule suffix_dropWhile)
    then have "last u = last (rev t)"
      using u_ne by (auto simp: suffix_def)
    then have last_u: "last u = hd t"
      using t_ne by (simp add: last_rev)
    have "set u \<subseteq> set t"
      unfolding u_def using set_dropWhileD [of _ P "rev t"] by auto
    moreover have "set t \<subseteq> set safe_chars"
      unfolding t_def using set_dropWhileD [of _ P] by fastforce
    ultimately have safe: "set (rev u) \<subseteq> set safe_chars" by auto
    have "hd (rev u) = last u" using u_ne by (simp add: hd_rev)
    moreover have "last (rev u) = hd u" using u_ne by (simp add: last_rev)
    ultimately have "clean_name (rev u)"
      using u_ne safe hd_u hd_t last_u by (simp add: clean_name_def P_def)
    then show ?thesis by (simp add: r)
  qed simp
  have fixed: "plain_secure_filename s = s" if c: "clean_name s" for s
  proof -
    have f: "filter (\<lambda>c. c \<in> set safe_chars) s = s"
      using c by (auto simp: clean_name_def filter_id_conv)
    have ne: "s \<noteq> []" and h: "\<not> P (hd s)" and l: "\<not> P (last s)"
      using c by (auto simp: clean_name_def P_def)
    have d1: "dropWhile P s = s"
      using ne h by (cases s) auto
    have d2: "dropWhile P (rev s) = rev s"
      using ne l by (cases "rev s") (auto simp: last_rev [symmetric] hd_rev)
    show ?thesis
      by (simp add: unfold f d1 d2)
  qed
  show ?thesis
    using clean fixed by (simp add: secure_filename_contract_def)
qed

text \<open>
  C3. Every call of \<open>process_pdf\<close> that gets as far as storing the upload (a file part
  with a non-empty name that passes \<open>validate_filename\<close> and, made safe, ends in \<open>.pdf\<close>)
  returns with no file at the path of the upload: when \<^verbatim>\<open>file.save\<close> fails, when the file
  is too large, when extraction, the prompt, the query or the writing of the output fail,
  and when everything succeeds. The removal itself is \<^verbatim>\<open>os.remove\<close>; the statement is for
  a path on which it does not raise.
\<close>

theorem process_pdf_removes_upload:
  assumes name: "upload_name f \<noteq> []"
      and valid: "validate_filename (PStr (upload_name f))"
      and pdf: "endswith (lower (secure_filename pe (upload_name f))) ''.pdf''"
      and deletable: "upload_path pe f \<notin> set (undeletable fs)"
  shows "files (snd (process_pdf pe m (Some f) fs)) (upload_path pe f) = None"
proof -
  define p where "p = upload_path pe f"
  have p: "path_join (UPLOAD_FOLDER pe) (upload_token pe @ ''_'' @ secure_filename pe (upload_name f)) = p"
    by (simp add: p_def upload_path_def)
  have gone: "\<And>fs'. undeletable fs' = undeletable fs \<Longrightarrow> files (snd (safe_remove_file p fs')) p = None"
    using deletable safe_remove_file_gone [of p] by (simp add: p_def)
  show ?thesis
  proof (cases "save_result pe")
    case (WriteFailed left msg)
    then show ?thesis
      using name valid pdf p gone
      by (cases left) (simp_all add: process_pdf_def Let_def p_def [symmetric] del: validate_filename.simps)
  next
    case Written
    show ?thesis
    proof (cases "int (length (upload_body f)) > MAX_CONTENT_LENGTH")
      case True
      then show ?thesis
        using name valid pdf p gone Written
        by (simp add: process_pdf_def Let_def p_def [symmetric] del: validate_filename.simps)
    next
      case False
      obtain r fs1 where ps: "process_saved pe m (secure_filename pe (upload_name f)) p
           (write_file p (upload_body f) fs) = (r, fs1)"
        by (cases "process_saved pe m (secure_filename pe (upload_name f)) p (write_file p (upload_body f) fs)")
      have u1: "undeletable fs1 = undeletable fs"
        using process_saved_undeletable [of pe m "secure_filename pe (upload_name f)" p "write_file p (upload_body f) fs"] ps
        by simp
      have g1: "files (snd (safe_remove_file p fs1)) p = None"
        by (rule gone [OF u1])
      have g2: "files (snd (safe_remove_file p (snd (safe_remove_file p fs1)))) p = None"
        by (rule gone) (simp add: u1)
      show ?thesis
        using name valid pdf p Written False ps g1 g2
        by (cases r) (simp_all add: process_pdf_def Let_def p_def [symmetric] del: validate_filename.simps)
    qed
  qed
qed

theorem process_pdf_removes_upload_witness:
  "validate_filename (PStr (upload_name report_upload))
   \<and> endswith (lower (secure_filename answering_pipeline (upload_name report_upload))) ''.pdf''
   \<and> files (snd (process_pdf answering_pipeline default_manager (Some report_upload) empty_fs))
         (upload_path answering_pipeline report_upload) = None"
proof -
  have n: "upload_name report_upload \<noteq> []"
    by code_simp
  have v: "validate_filename (PStr (upload_name report_upload))"
    by code_simp
  have e: "endswith (lower (secure_filename answering_pipeline (upload_name report_upload))) ''.pdf''"
    by code_simp
  have d: "upload_path answering_pipeline report_upload \<notin> set (undeletable empty_fs)"
    by (simp add: empty_fs_def)
  show ?thesis
    using process_pdf_removes_upload [OF n v e d] v e by blast
qed

text \<open>
  What a download gives after \<open>process_pdf\<close> answered with success. The answer names the
  artifact \<open>artifact_id\<close>; the output file holds the text \<open>data\<close> that this call obtained
  from the engine and wrote; the first \<open>download\<close> of that identifier sends exactly
  \<open>data\<close>; serving that response leaves the file where it is, and a second \<open>download\<close>
  sends \<open>data\<close> once more.
  Assumed of the outside: \<open>secure_filename\<close> keeps its contract, the two tokens are what
  \<^verbatim>\<open>token_hex\<close> returns, and the directory of the application is an absolute path.
\<close>

theorem download_sends_written_text:
  assumes contract: "secure_filename_contract (secure_filename pe)"
      and tokens: "hex_token (upload_token pe)" "hex_token (output_token pe)"
      and abs: "startswith (app_dir pe) ''/''"
      and ok: "process_pdf pe m (Some f) fs = (Response 200 body, fs1)"
  shows "\<exists>text prompt data.
           map_of body ''output_file'' = Some (PStr (artifact_id pe f))
         \<and> extract_pdf_text pe (write_file (upload_path pe f) (upload_body f) fs)
               (upload_path pe f) = Returns text
         \<and> read_prompt pe = Returns prompt
         \<and> query_ollama pe m prompt text = Returns data
         \<and> files fs1 (path_join (OUTPUT_FOLDER pe) (artifact_id pe f)) = Some data
         \<and> download pe (artifact_id pe f) fs1
             = SendFile data (path_join (OUTPUT_FOLDER pe) (artifact_id pe f))
         \<and> serve_response (download pe (artifact_id pe f) fs1) fs1 = fs1
         \<and> download pe (artifact_id pe f)
               (serve_response (download pe (artifact_id pe f) fs1) fs1)
             = SendFile data (path_join (OUTPUT_FOLDER pe) (artifact_id pe f))"
proof -
  define a where "a = artifact_id pe f"
  define ap where "ap = path_join (OUTPUT_FOLDER pe) a"
  define up where "up = upload_path pe f"
  define fs0 where "fs0 = write_file up (upload_body f) fs"
  define name where "name = secure_filename pe (upload_name f)"
  from process_pdf_success [OF ok]
  obtain fs2 where pdf: "endswith (lower name) ''.pdf''"
    and ps: "process_saved pe m name up fs0 = (Returns (Response 200 body), fs2)"
    and fs1: "fs1 = snd (safe_remove_file up fs2)"
    by (auto simp: name_def up_def fs0_def)
  from process_saved_success [OF ps]
  obtain extracted prompt data where ex: "extract_pdf_text pe fs0 up = Returns extracted"
    and rp: "read_prompt pe = Returns prompt"
    and q: "query_ollama pe m prompt extracted = Returns data"
    and fs2: "fs2 = write_file ap data fs0"
    and body: "body = [(''status'', PStr ''success''),
                   (''output_file'', PStr (basename ap)),
                   (''original_name'', PStr (path_stem name @ ''_output.txt''))]"
    by (auto simp: ap_def a_def artifact_id_def name_def)
  have "name \<noteq> []"
    using pdf by (auto simp: endswith_def lower_def)
  then have "clean_name name"
    using contract by (auto simp: secure_filename_contract_def name_def)
  then have name_safe: "set (secure_filename pe (upload_name f)) \<subseteq> set safe_chars"
    by (simp add: clean_name_def name_def)
  have clean: "clean_name a"
    unfolding a_def by (rule artifact_id_clean [OF tokens(2) name_safe])
  have ap_eq: "ap = OUTPUT_FOLDER pe @ ''/'' @ a"
    unfolding ap_def by (rule artifact_path [OF abs clean])
  have base: "basename ap = a"
    using after_last_append [of "CHR ''/''" a "OUTPUT_FOLDER pe"] clean_name_facts(1) [OF clean]
    by (simp add: ap_eq basename_def)
  obtain c cs where tok: "upload_token pe = c # cs"
    using tokens(1) by (cases "upload_token pe") (auto simp: hex_token_def)
  have "c \<noteq> CHR ''/''"
    using tokens(1) by (auto simp: hex_token_def tok)
  then have "\<not> startswith (upload_token pe @ ''_'' @ name) ''/''"
    by (simp add: tok startswith_def)
  then have differ: "up \<noteq> ap"
    unfolding up_def upload_path_def ap_def name_def [symmetric]
    by (rule upload_not_artifact [OF abs clean])
  have stored: "files fs1 ap = Some data"
    using differ by (simp add: fs1 fs2 safe_remove_file_other write_file_def)
  have first: "download pe a fs1 = SendFile data ap"
    unfolding ap_def by (rule download_present [OF contract abs clean stored [unfolded ap_def]])
  have served: "serve_response (download pe a fs1) fs1 = fs1"
    by (simp add: first serve_response_def direct_passthrough_def)
  have second: "download pe a (serve_response (download pe a fs1) fs1) = SendFile data ap"
    unfolding served by (rule first)
  show ?thesis
    using ex rp q stored first served second body base
    by (auto simp: a_def ap_def up_def fs0_def)
qed

theorem download_sends_written_text_witness:
  "hex_token (output_token answering_pipeline)
   \<and> fst (process_pdf answering_pipeline default_manager (Some report_upload) empty_fs)
       = Response 200
           [(''status'', PStr ''success''),
            (''output_file'', PStr ''0123456789abcdef_Q3-report_output.txt''),
            (''original_name'', PStr ''Q3-report_output.txt'')]
   \<and> (\<exists>data.
         files (snd (process_pdf answering_pipeline default_manager (Some report_upload) empty_fs))
           (path_join (OUTPUT_FOLDER answering_pipeline)
              (artifact_id answering_pipeline report_upload)) = Some data
       \<and> download answering_pipeline (artifact_id answering_pipeline report_upload)
           (snd (process_pdf answering_pipeline default_manager (Some report_upload) empty_fs))
         = SendFile data
             (path_join (OUTPUT_FOLDER answering_pipeline)
                (artifact_id answering_pipeline report_upload)))"
proof -
  define fs1 where
    "fs1 = snd (process_pdf answering_pipeline default_manager (Some report_upload) empty_fs)"
  have c: "secure_filename_contract (secure_filename answering_pipeline)"
    using plain_secure_filename_contract by (simp add: answering_pipeline_def)
  have t1: "hex_token (upload_token answering_pipeline)"
    by (simp add: hex_token_def answering_pipeline_def)
  have t2: "hex_token (output_token answering_pipeline)"
    by (simp add: hex_token_def answering_pipeline_def)
  have a: "startswith (app_dir answering_pipeline) ''/''"
    by code_simp
  have r: "fst (process_pdf answering_pipeline default_manager (Some report_upload) empty_fs)
       = Response 200
           [(''status'', PStr ''success''),
            (''output_file'', PStr ''0123456789abcdef_Q3-report_output.txt''),
            (''original_name'', PStr ''Q3-report_output.txt'')]"
    by code_simp
  have ok: "process_pdf answering_pipeline default_manager (Some report_upload) empty_fs
       = (Response 200
           [(''status'', PStr ''success''),
            (''output_file'', PStr ''0123456789abcdef_Q3-report_output.txt''),
            (''original_name'', PStr ''Q3-report_output.txt'')], fs1)"
    using r by (simp add: fs1_def prod_eq_iff)
  show ?thesis
    using download_sends_written_text [OF c t1 t2 a ok] t2 r unfolding fs1_def by blast
qed

text \<open>
  C9. The claim: the first retrieve of an artifact returns exactly the bytes that
  \<open>process_pdf\<close> wrote, and a second retrieve of the same identifier fails with a
  not-found condition. The first half holds. The second does not: the route registers the
  removal of the file with \<^verbatim>\<open>call_on_close\<close>, but the response of \<^verbatim>\<open>send_file\<close> is a
  direct-passthrough response, for which \<^verbatim>\<open>Response.close\<close> is never called, so the
  removal never runs. In the run below \<open>process_pdf\<close> answers with success, the first
  download sends the text that was written, the file is still there after the response
  was served, and the second download sends the same text again instead of answering 404.
\<close>

theorem second_download_sends_file_again:
  "fst (process_pdf answering_pipeline default_manager (Some report_upload) empty_fs)
     = Response 200
         [(''status'', PStr ''success''),
          (''output_file'', PStr ''0123456789abcdef_Q3-report_output.txt''),
          (''original_name'', PStr ''Q3-report_output.txt'')]
   \<and> download answering_pipeline ''0123456789abcdef_Q3-report_output.txt''
         (snd (process_pdf answering_pipeline default_manager (Some report_upload) empty_fs))
       = SendFile ''Revenue up, costs &lt;down&gt;.''
           ''/srv/app/outputs/0123456789abcdef_Q3-report_output.txt''
   \<and> download answering_pipeline ''0123456789abcdef_Q3-report_output.txt''
         (serve_response
            (download answering_pipeline ''0123456789abcdef_Q3-report_output.txt''
               (snd (process_pdf answering_pipeline default_manager (Some report_upload)
                       empty_fs)))
            (snd (process_pdf answering_pipeline default_manager (Some report_upload) empty_fs)))
       = SendFile ''Revenue up, costs &lt;down&gt;.''
           ''/srv/app/outputs/0123456789abcdef_Q3-report_output.txt''"
  by code_simp

end
